theory Spec2Isabelle
  imports Main "HOL-Library.Sublist" "HOL-Library.Word"
begin

section \<open>JavaScript strings\<close>

text \<open>
  A JavaScript string is the sequence of its UTF-16 code units, and \<open>trim\<close>,
  \<open>includes\<close>, \<open>join\<close> and the two patterns of the validator work on code units. A
  literal of the program text is written \<open>utf16 ''...''\<close>.
\<close>

type_synonym code_unit = "16 word"

type_synonym ustring = "code_unit list"

definition utf16 :: "string \<Rightarrow> ustring" where
  \<comment> \<open>the code units of an ASCII literal\<close>
  "utf16 s = map of_char s"

definition is_space :: "code_unit \<Rightarrow> bool" where
  \<comment> \<open>WhiteSpace and LineTerminator of ECMAScript: what \<open>trim\<close> strips and what \<open>\s\<close>
      matches. TAB, LF, VT, FF, CR, SP, NBSP, U+1680, U+2000 to U+200A, LS, PS, U+202F,
      U+205F, U+3000, U+FEFF.\<close>
  "is_space c =
     (c \<in> {0x9, 0xA, 0xB, 0xC, 0xD, 0x20, 0xA0, 0x1680, 0x2028, 0x2029, 0x202F, 0x205F,
            0x3000, 0xFEFF} \<or>
      (0x2000 \<le> c \<and> c \<le> 0x200A))"

definition is_digit :: "code_unit \<Rightarrow> bool" where
  \<comment> \<open>the class \<open>[0-9]\<close>\<close>
  "is_digit c = (0x30 \<le> c \<and> c \<le> 0x39)"

definition trim :: "ustring \<Rightarrow> ustring" where
  "trim s = rev (dropWhile is_space (rev (dropWhile is_space s)))"

fun str_includes :: "ustring \<Rightarrow> ustring \<Rightarrow> bool" where
  \<comment> \<open>\<open>s.includes(t)\<close>: \<open>t\<close> occurs in \<open>s\<close> as a run of consecutive code units\<close>
  "str_includes [] t = (t = [])"
| "str_includes (c # s) t = (prefix t (c # s) \<or> str_includes s t)"

fun join :: "ustring \<Rightarrow> ustring list \<Rightarrow> ustring" where
  \<comment> \<open>the strings in order, with the separator between each two\<close>
  "join sep [] = []"
| "join sep [x] = x"
| "join sep (x # y # ys) = x @ sep @ join sep (y # ys)"

subsection \<open>Lower case\<close>

text \<open>
  \<open>String.prototype.toLowerCase\<close> maps a string as a whole, by the case mappings of the
  Unicode tables, which are no part of the program: the list filter takes the function as
  its argument \<open>lower\<close>, and what is proved of the filter holds whatever the function is.
  \<open>toLowerCase\<close> below is the function on the strings whose code units lie in U+0000 to
  U+00FF (Basic Latin, Latin-1 Supplement) or U+0391 to U+03CE (the Greek letters): the
  capital letters move up by 32, and a capital sigma becomes a final sigma (U+03C2) when
  a cased letter stands before it, case-ignorable characters apart, and none after it,
  case-ignorable characters apart. It serves the evaluations on concrete strings.
\<close>

definition is_upper :: "code_unit \<Rightarrow> bool" where
  \<comment> \<open>A to Z, U+00C0 to U+00D6, U+00D8 to U+00DE, U+0391 to U+03A1, U+03A3 to U+03AB\<close>
  "is_upper c =
     ((0x41 \<le> c \<and> c \<le> 0x5A) \<or> (0xC0 \<le> c \<and> c \<le> 0xD6) \<or> (0xD8 \<le> c \<and> c \<le> 0xDE) \<or>
      (0x391 \<le> c \<and> c \<le> 0x3A1) \<or> (0x3A3 \<le> c \<and> c \<le> 0x3AB))"

definition lower_unit :: "code_unit \<Rightarrow> code_unit" where
  "lower_unit c = (if is_upper c then c + 0x20 else c)"

definition cased :: "code_unit \<Rightarrow> bool" where
  \<comment> \<open>the property Cased on the two ranges\<close>
  "cased c =
     ((0x41 \<le> c \<and> c \<le> 0x5A) \<or> (0x61 \<le> c \<and> c \<le> 0x7A) \<or> c \<in> {0xAA, 0xB5, 0xBA} \<or>
      (0xC0 \<le> c \<and> c \<le> 0xD6) \<or> (0xD8 \<le> c \<and> c \<le> 0xF6) \<or> (0xF8 \<le> c \<and> c \<le> 0xFF) \<or>
      (0x391 \<le> c \<and> c \<le> 0x3A1) \<or> (0x3A3 \<le> c \<and> c \<le> 0x3CE))"

definition case_ignorable :: "code_unit \<Rightarrow> bool" where
  \<comment> \<open>the property Case_Ignorable on the two ranges\<close>
  "case_ignorable c =
     (c \<in> {0x27, 0x2E, 0x3A, 0x5E, 0x60, 0xA8, 0xAD, 0xAF, 0xB4, 0xB7, 0xB8})"

definition cased_next :: "ustring \<Rightarrow> bool" where
  \<comment> \<open>a cased letter comes first, case-ignorable characters apart\<close>
  "cased_next s = (case dropWhile case_ignorable s of [] \<Rightarrow> False | c # cs \<Rightarrow> cased c)"

definition final_sigma :: "ustring \<Rightarrow> ustring \<Rightarrow> bool" where
  \<comment> \<open>the condition Final_Sigma, from the units before, nearest first, and the units after\<close>
  "final_sigma before after = (cased_next before \<and> \<not> cased_next after)"

fun lower_from :: "ustring \<Rightarrow> ustring \<Rightarrow> ustring" where
  "lower_from before [] = []"
| "lower_from before (c # after) =
     (if c = 0x3A3 \<and> final_sigma before after then 0x3C2 else lower_unit c)
       # lower_from (c # before) after"

definition toLowerCase :: "ustring \<Rightarrow> ustring" where
  "toLowerCase s = lower_from [] s"

subsection \<open>Values\<close>

text \<open>
  The body of a response is whatever JSON the service sent. A number is kept as what the
  page can see of it: whether it is truthy, and its text. An object is the list of its
  properties, each key once.
\<close>

datatype js_value =
  JUndefined
  | JNull
  | JBool bool
  | JNum bool ustring
  | JStr ustring
  | JArr "js_value list"
  | JObj "(string \<times> js_value) list"

datatype exception = TypeError

fun truthy :: "js_value \<Rightarrow> bool" where
  "truthy JUndefined = False"
| "truthy JNull = False"
| "truthy (JBool b) = b"
| "truthy (JNum t s) = t"
| "truthy (JStr s) = (s \<noteq> [])"
| "truthy (JArr xs) = True"
| "truthy (JObj fs) = True"

fun toString :: "js_value \<Rightarrow> ustring" where
  \<comment> \<open>an array is its elements joined by commas, \<open>null\<close> and \<open>undefined\<close> elements empty\<close>
  "toString JUndefined = utf16 ''undefined''"
| "toString JNull = utf16 ''null''"
| "toString (JBool b) = (if b then utf16 ''true'' else utf16 ''false'')"
| "toString (JNum t s) = s"
| "toString (JStr s) = s"
| "toString (JArr xs) =
     join (utf16 '','') (map (\<lambda>x. if x = JUndefined \<or> x = JNull then [] else toString x) xs)"
| "toString (JObj fs) = utf16 ''[object Object]''"

definition array_join :: "ustring \<Rightarrow> js_value list \<Rightarrow> ustring" where
  \<comment> \<open>\<open>xs.join(sep)\<close>\<close>
  "array_join sep xs =
     join sep (map (\<lambda>x. if x = JUndefined \<or> x = JNull then [] else toString x) xs)"

definition get_property :: "js_value \<Rightarrow> string \<Rightarrow> exception + js_value" where
  \<comment> \<open>\<open>v.errors\<close> and \<open>v.message\<close>: reading a property of \<open>null\<close> or \<open>undefined\<close> throws; a
      string, a number, a boolean and an array have neither property\<close>
  "get_property v k =
     (case v of
        JUndefined \<Rightarrow> Inl TypeError
      | JNull \<Rightarrow> Inl TypeError
      | JObj fs \<Rightarrow> Inr (case map_of fs k of Some x \<Rightarrow> x | None \<Rightarrow> JUndefined)
      | _ \<Rightarrow> Inr JUndefined)"

section \<open>Regular expressions\<close>

text \<open>
  The two patterns of the validator use character classes, concatenation and \<open>+\<close>, and
  are anchored at both ends, so \<open>test\<close> decides whether the whole string belongs to the
  pattern's language. The matcher takes derivatives of the pattern, one code unit at a
  time.
\<close>

datatype regex =
  Fail
  | Eps
  | Class "code_unit \<Rightarrow> bool"
  | Alt regex regex
  | Cat regex regex
  | Star regex

definition Plus :: "regex \<Rightarrow> regex" where
  "Plus r = Cat r (Star r)"

fun nullable :: "regex \<Rightarrow> bool" where
  "nullable Fail = False"
| "nullable Eps = True"
| "nullable (Class P) = False"
| "nullable (Alt r s) = (nullable r \<or> nullable s)"
| "nullable (Cat r s) = (nullable r \<and> nullable s)"
| "nullable (Star r) = True"

fun deriv :: "code_unit \<Rightarrow> regex \<Rightarrow> regex" where
  "deriv c Fail = Fail"
| "deriv c Eps = Fail"
| "deriv c (Class P) = (if P c then Eps else Fail)"
| "deriv c (Alt r s) = Alt (deriv c r) (deriv c s)"
| "deriv c (Cat r s) =
     (if nullable r then Alt (Cat (deriv c r) s) (deriv c s) else Cat (deriv c r) s)"
| "deriv c (Star r) = Cat (deriv c r) (Star r)"

definition test :: "regex \<Rightarrow> ustring \<Rightarrow> bool" where
  \<comment> \<open>\<open>/^r$/.test(s)\<close>\<close>
  "test r s = nullable (fold deriv s r)"

definition nik_pattern :: regex where
  \<comment> \<open>\<open>/^[0-9]+$/\<close>\<close>
  "nik_pattern = Plus (Class is_digit)"

definition not_space_at :: "code_unit \<Rightarrow> bool" where
  \<comment> \<open>the class \<open>[^\s@]\<close>; \<open>@\<close> is U+0040\<close>
  "not_space_at c = (\<not> is_space c \<and> c \<noteq> 0x40)"

definition email_pattern :: regex where
  \<comment> \<open>\<open>/^[^\s@]+@[^\s@]+\.[^\s@]+$/\<close>; the dot is U+002E\<close>
  "email_pattern =
     Cat (Plus (Class not_space_at))
      (Cat (Class (\<lambda>c. c = 0x40))
        (Cat (Plus (Class not_space_at))
          (Cat (Class (\<lambda>c. c = 0x2E))
            (Plus (Class not_space_at)))))"

text \<open>The language of a pattern, against which the matcher is proved correct.\<close>

inductive_set star :: "ustring set \<Rightarrow> ustring set" for A :: "ustring set" where
  star_nil: "[] \<in> star A"
| star_app: "u \<in> A \<Longrightarrow> v \<in> star A \<Longrightarrow> u @ v \<in> star A"

fun lang :: "regex \<Rightarrow> ustring set" where
  "lang Fail = {}"
| "lang Eps = {[]}"
| "lang (Class P) = {[c] | c. P c}"
| "lang (Alt r s) = lang r \<union> lang s"
| "lang (Cat r s) = {u @ v | u v. u \<in> lang r \<and> v \<in> lang s}"
| "lang (Star r) = star (lang r)"

section \<open>Data model\<close>

text \<open>\<open>types/patient.ts\<close>: the record as the service returns it, the draft of the form,
  and the per-field error messages (a JavaScript object, kept as an association list in
  insertion order, which is the order of \<open>Object.keys\<close>; its keys are the field names of
  the program text).\<close>

record Patient =
  id :: int
  nama :: ustring
  nik :: ustring
  tanggal_lahir :: ustring
  jenis_kelamin :: ustring
  alamat :: ustring
  no_telepon :: ustring
  email :: "ustring option"
  golongan_darah :: ustring
  created_at :: ustring
  updated_at :: ustring

record PatientFormData =
  nama :: ustring
  nik :: ustring
  tanggal_lahir :: ustring
  jenis_kelamin :: ustring
  alamat :: ustring
  no_telepon :: ustring
  email :: ustring
  golongan_darah :: ustring

type_synonym FormErrors = "(string \<times> ustring) list"

definition initialFormData :: PatientFormData where
  "initialFormData = \<lparr> nama = [], nik = [], tanggal_lahir = [], jenis_kelamin = [],
     alamat = [], no_telepon = [], email = [], golongan_darah = [] \<rparr>"

section \<open>The form validator\<close>

text \<open>The mapping \<open>newErrors\<close> that \<open>validateForm\<close> builds from the draft. A string is
  falsy exactly when it is empty.\<close>

definition newErrors :: "PatientFormData \<Rightarrow> FormErrors" where
  "newErrors fd =
     (if trim (PatientFormData.nama fd) = []
      then [(''nama'', utf16 ''Nama tidak boleh kosong'')] else []) @
     (if trim (PatientFormData.nik fd) = []
      then [(''nik'', utf16 ''NIK tidak boleh kosong'')]
      else if \<not> test nik_pattern (PatientFormData.nik fd)
      then [(''nik'', utf16 ''NIK hanya boleh berisi angka'')] else []) @
     (if PatientFormData.tanggal_lahir fd = []
      then [(''tanggal_lahir'', utf16 ''Tanggal lahir tidak boleh kosong'')] else []) @
     (if PatientFormData.jenis_kelamin fd = []
      then [(''jenis_kelamin'', utf16 ''Jenis kelamin tidak boleh kosong'')] else []) @
     (if trim (PatientFormData.alamat fd) = []
      then [(''alamat'', utf16 ''Alamat tidak boleh kosong'')] else []) @
     (if trim (PatientFormData.no_telepon fd) = []
      then [(''no_telepon'', utf16 ''No telepon tidak boleh kosong'')] else []) @
     (if PatientFormData.golongan_darah fd = []
      then [(''golongan_darah'', utf16 ''Golongan darah tidak boleh kosong'')] else []) @
     (if PatientFormData.email fd \<noteq> [] \<and> \<not> test email_pattern (PatientFormData.email fd)
      then [(''email'', utf16 ''Format email tidak valid'')] else [])"

definition flagged :: "FormErrors \<Rightarrow> string \<Rightarrow> bool" where
  \<comment> \<open>the mapping has an entry for the field\<close>
  "flagged es k = (map_of es k \<noteq> None)"

section \<open>The service\<close>

text \<open>\<open>lib/api.ts\<close>. A call to the service either resolves with the response body or
  rejects. A rejection is an axios error that carries the response of the service, of
  which the page reads the body \<open>error.response.data\<close>, or an axios error without a
  response, or any other exception.\<close>

datatype failure =
  AxiosResponse js_value
  | AxiosNoResponse
  | NotAxios

datatype 'a outcome = Resolved 'a | Rejected failure

datatype request =
  GetAllPatients
  | CreatePatient PatientFormData
  | UpdatePatient int PatientFormData
  | DeletePatient int

section \<open>The page\<close>

text \<open>The state of \<open>Home\<close>, one field per \<open>useState\<close>, and two fields that are not in
  the source and record effects: \<open>requests\<close>, the requests sent to the service so far,
  oldest first, and \<open>uncaught\<close>, the exceptions that left a handler. \<open>errorMessage\<close> is
  declared a string and receives what the service sent as \<open>message\<close>, of any type. Each
  handler takes the outcomes of the calls it awaits and runs to its end.\<close>

record state =
  patients :: "Patient list"
  loading :: bool
  formData :: PatientFormData
  errors :: FormErrors
  editingId :: "int option"
  showForm :: bool
  successMessage :: ustring
  errorMessage :: js_value
  searchKeyword :: ustring
  requests :: "request list"
  uncaught :: "exception list"

definition initialState :: state where
  "initialState = \<lparr> patients = [], loading = True, formData = initialFormData,
     errors = [], editingId = None, showForm = False, successMessage = [],
     errorMessage = JStr [], searchKeyword = [], requests = [], uncaught = [] \<rparr>"

definition send :: "request \<Rightarrow> state \<Rightarrow> state" where
  "send r s = s\<lparr>requests := requests s @ [r]\<rparr>"

definition errorBanner :: "state \<Rightarrow> js_value option" where
  \<comment> \<open>\<open>{errorMessage && ...}\<close>: the banner is rendered when the message is truthy\<close>
  "errorBanner s = (if truthy (errorMessage s) then Some (errorMessage s) else None)"

definition fetchPatients :: "Patient list outcome \<Rightarrow> state \<Rightarrow> state" where
  "fetchPatients response s =
     (let s1 = send GetAllPatients (s\<lparr>loading := True\<rparr>);
          s2 = (case response of
                  Resolved data \<Rightarrow> s1\<lparr>patients := data\<rparr>
                | Rejected error \<Rightarrow> s1\<lparr>errorMessage := JStr (utf16
                    ''Gagal mengambil data pasien. Pastikan backend sudah berjalan.'')\<rparr>)
      in s2\<lparr>loading := False\<rparr>)"

definition validateForm :: "state \<Rightarrow> bool \<times> state" where
  "validateForm s =
     (let es = newErrors (formData s) in (es = [], s\<lparr>state.errors := es\<rparr>))"

definition submitFailure :: "failure \<Rightarrow> exception + js_value" where
  \<comment> \<open>the \<open>catch\<close> block of \<open>handleSubmit\<close>: the message it sets, or the exception that a
      property read throws. An array is truthy, so \<open>apiError.errors &&
      Array.isArray(apiError.errors)\<close> holds of the arrays.\<close>
  "submitFailure error =
     (case error of
        AxiosResponse apiError \<Rightarrow>
          (case get_property apiError ''errors'' of
             Inl e \<Rightarrow> Inl e
           | Inr (JArr xs) \<Rightarrow> Inr (JStr (array_join (utf16 '', '') xs))
           | Inr other \<Rightarrow>
               (case get_property apiError ''message'' of
                  Inl e \<Rightarrow> Inl e
                | Inr message \<Rightarrow>
                    Inr (if truthy message then message
                         else JStr (utf16 ''Terjadi kesalahan''))))
      | _ \<Rightarrow> Inr (JStr (utf16 ''Terjadi kesalahan saat menyimpan data'')))"

definition submitRequest :: "state \<Rightarrow> request" where
  \<comment> \<open>\<open>if (editingId)\<close>: \<open>null\<close> and \<open>0\<close> are falsy\<close>
  "submitRequest s =
     (case editingId s of
        Some i \<Rightarrow> if i \<noteq> 0 then UpdatePatient i (formData s) else CreatePatient (formData s)
      | None \<Rightarrow> CreatePatient (formData s))"

definition submitSuccess :: "state \<Rightarrow> ustring" where
  "submitSuccess s =
     (case editingId s of
        Some i \<Rightarrow> if i \<noteq> 0 then utf16 ''Data pasien berhasil diperbarui!''
                  else utf16 ''Pasien baru berhasil ditambahkan!''
      | None \<Rightarrow> utf16 ''Pasien baru berhasil ditambahkan!'')"

definition handleSubmit :: "Patient outcome \<Rightarrow> Patient list outcome \<Rightarrow> state \<Rightarrow> state" where
  "handleSubmit saved fetched s =
     (let s1 = s\<lparr>successMessage := [], errorMessage := JStr []\<rparr>;
          (valid, s2) = validateForm s1
      in if \<not> valid then s2
         else
           (let s3 = send (submitRequest s2) s2
            in case saved of
                 Resolved p \<Rightarrow>
                   fetchPatients fetched
                     (s3\<lparr>successMessage := submitSuccess s2, formData := initialFormData,
                         editingId := None, showForm := False\<rparr>)
               | Rejected error \<Rightarrow>
                   (case submitFailure error of
                      Inr m \<Rightarrow> s3\<lparr>errorMessage := m\<rparr>
                    | Inl e \<Rightarrow> s3\<lparr>uncaught := uncaught s3 @ [e]\<rparr>)))"

definition handleDelete ::
  "bool \<Rightarrow> unit outcome \<Rightarrow> Patient list outcome \<Rightarrow> int \<Rightarrow> ustring \<Rightarrow> state \<Rightarrow> state" where
  \<comment> \<open>\<open>confirmed\<close> is the answer to \<open>window.confirm\<close>\<close>
  "handleDelete confirmed deleted fetched i name s =
     (if confirmed then
        (let s1 = send (DeletePatient i) s
         in case deleted of
              Resolved u \<Rightarrow>
                fetchPatients fetched
                  (s1\<lparr>successMessage := utf16 ''Data pasien berhasil dihapus!''\<rparr>)
            | Rejected error \<Rightarrow>
                s1\<lparr>errorMessage := JStr (utf16 ''Gagal menghapus data pasien'')\<rparr>)
      else s)"

definition filteredPatients ::
  "(ustring \<Rightarrow> ustring) \<Rightarrow> Patient list \<Rightarrow> ustring \<Rightarrow> Patient list" where
  \<comment> \<open>computed at every render from the list and the keyword of the state; \<open>lower\<close> is
      \<open>String.prototype.toLowerCase\<close>\<close>
  "filteredPatients lower ps keyword =
     filter (\<lambda>patient.
        str_includes (lower (Patient.nama patient)) (lower keyword) \<or>
        str_includes (Patient.nik patient) keyword) ps"

section \<open>The properties of the specification, in its own words\<close>

definition digits_only :: "ustring \<Rightarrow> bool" where
  "digits_only s = (s \<noteq> [] \<and> (\<forall>c \<in> set s. is_digit c))"

definition email_shape :: "ustring \<Rightarrow> bool" where
  \<comment> \<open>\<open>local@domain.tld\<close>: three non-empty parts without white space or \<open>@\<close>\<close>
  "email_shape e =
     (\<exists>x y z. e = x @ [0x40] @ y @ [0x2E] @ z \<and> x \<noteq> [] \<and> y \<noteq> [] \<and> z \<noteq> [] \<and>
        (\<forall>c \<in> set (x @ y @ z). \<not> is_space c \<and> c \<noteq> 0x40))"

definition email_shape_spaces :: "ustring \<Rightarrow> bool" where
  \<comment> \<open>the same with the space U+0020 as the only character kept out besides \<open>@\<close>\<close>
  "email_shape_spaces e =
     (\<exists>x y z. e = x @ [0x40] @ y @ [0x2E] @ z \<and> x \<noteq> [] \<and> y \<noteq> [] \<and> z \<noteq> [] \<and>
        (\<forall>c \<in> set (x @ y @ z). c \<noteq> 0x20 \<and> c \<noteq> 0x40))"

definition domain_segment :: "ustring \<Rightarrow> bool" where
  \<comment> \<open>the string has a domain segment: something between an \<open>@\<close> and a later dot\<close>
  "domain_segment e = (\<exists>x y z. e = x @ [0x40] @ y @ [0x2E] @ z \<and> y \<noteq> [])"

definition missing :: "PatientFormData \<Rightarrow> string \<Rightarrow> bool" where
  \<comment> \<open>a required field is missing: empty, after trimming for the four text inputs\<close>
  "missing fd k =
     ((k = ''nama'' \<and> trim (PatientFormData.nama fd) = []) \<or>
      (k = ''nik'' \<and> trim (PatientFormData.nik fd) = []) \<or>
      (k = ''tanggal_lahir'' \<and> PatientFormData.tanggal_lahir fd = []) \<or>
      (k = ''jenis_kelamin'' \<and> PatientFormData.jenis_kelamin fd = []) \<or>
      (k = ''alamat'' \<and> trim (PatientFormData.alamat fd) = []) \<or>
      (k = ''no_telepon'' \<and> trim (PatientFormData.no_telepon fd) = []) \<or>
      (k = ''golongan_darah'' \<and> PatientFormData.golongan_darah fd = []))"

definition rules_hold :: "PatientFormData \<Rightarrow> bool" where
  \<comment> \<open>every rule of the validator: the seven required fields, the digits of the identity
      number, the shape of the email when there is one\<close>
  "rules_hold fd =
     ((\<forall>k. \<not> missing fd k) \<and> digits_only (PatientFormData.nik fd) \<and>
      (PatientFormData.email fd = [] \<or> email_shape (PatientFormData.email fd)))"

definition same_letter :: "code_unit \<Rightarrow> code_unit \<Rightarrow> bool" where
  \<comment> \<open>equal, or the upper and the lower case of one letter\<close>
  "same_letter c d =
     (c = d \<or> (is_upper c \<and> d = lower_unit c) \<or> (is_upper d \<and> c = lower_unit d))"

definition ci_substring :: "ustring \<Rightarrow> ustring \<Rightarrow> bool" where
  \<comment> \<open>\<open>k\<close> occurs in \<open>s\<close> up to the case of its letters\<close>
  "ci_substring k s = (\<exists>u. sublist u s \<and> list_all2 same_letter u k)"

definition latin1 :: "ustring \<Rightarrow> bool" where
  \<comment> \<open>every code unit is below U+0100\<close>
  "latin1 s = (\<forall>c \<in> set s. c < 0x100)"

definition interleaved :: "ustring \<Rightarrow> ustring list \<Rightarrow> ustring" where
  \<comment> \<open>the strings joined together: each followed by the separator, but for the last\<close>
  "interleaved sep xs = concat (butlast (concat (map (\<lambda>x. [x, sep]) xs)))"

section \<open>Example drafts, records and responses\<close>

definition draft_valid :: PatientFormData where
  "draft_valid = \<lparr> nama = utf16 ''Budi Santoso'', nik = utf16 ''3201234567890001'',
     tanggal_lahir = utf16 ''1990-01-31'', jenis_kelamin = utf16 ''Laki-laki'',
     alamat = utf16 ''Jl. Merdeka 1'', no_telepon = utf16 ''081234567890'',
     email = utf16 ''budi@example.com'', golongan_darah = utf16 ''O'' \<rparr>"

definition draft_ana :: PatientFormData where
  "draft_ana = \<lparr> nama = utf16 ''Ana'', nik = utf16 ''12AB'',
     tanggal_lahir = utf16 ''1995-05-17'', jenis_kelamin = utf16 ''Perempuan'',
     alamat = utf16 ''Jl. Mawar 2'', no_telepon = utf16 ''0812000111'', email = [],
     golongan_darah = utf16 ''AB'' \<rparr>"

definition draft_blank_address :: PatientFormData where
  "draft_blank_address = draft_valid \<lparr> alamat := utf16 ''   '', golongan_darah := [] \<rparr>"

definition tab_email :: ustring where
  \<comment> \<open>\<open>a\<close>, TAB, \<open>b@c.d\<close>\<close>
  "tab_email = utf16 ''a'' @ [0x9] @ utf16 ''b@c.d''"

definition budi :: Patient where
  "budi = \<lparr> id = 1, nama = utf16 ''Budi'', nik = utf16 ''3201234567890001'',
     tanggal_lahir = utf16 ''1990-01-31T00:00:00.000Z'', jenis_kelamin = utf16 ''Laki-laki'',
     alamat = utf16 ''Jl. Merdeka 1'', no_telepon = utf16 ''081234567890'', email = None,
     golongan_darah = utf16 ''O'', created_at = utf16 ''2025-01-01T00:00:00.000Z'',
     updated_at = utf16 ''2025-01-01T00:00:00.000Z'' \<rparr>"

definition sari :: Patient where
  "sari = \<lparr> id = 2, nama = utf16 ''Sari'', nik = utf16 ''3201234567890002'',
     tanggal_lahir = utf16 ''1992-03-04T00:00:00.000Z'', jenis_kelamin = utf16 ''Perempuan'',
     alamat = utf16 ''Jl. Melati 3'', no_telepon = utf16 ''081298765432'',
     email = Some (utf16 ''sari@example.com''),
     golongan_darah = utf16 ''A'', created_at = utf16 ''2025-01-02T00:00:00.000Z'',
     updated_at = utf16 ''2025-01-02T00:00:00.000Z'' \<rparr>"

definition sari_bu :: Patient where
  \<comment> \<open>a record named Sari whose identity number holds \<open>bu\<close>\<close>
  "sari_bu = \<lparr> id = 2, nama = utf16 ''Sari'', nik = utf16 ''bu-0002'',
     tanggal_lahir = utf16 ''1992-03-04T00:00:00.000Z'', jenis_kelamin = utf16 ''Perempuan'',
     alamat = utf16 ''Jl. Melati 3'', no_telepon = utf16 ''081298765432'',
     email = Some (utf16 ''sari@example.com''),
     golongan_darah = utf16 ''A'', created_at = utf16 ''2025-01-02T00:00:00.000Z'',
     updated_at = utf16 ''2025-01-02T00:00:00.000Z'' \<rparr>"

definition odos :: Patient where
  \<comment> \<open>a record whose name is the Greek capitals omicron, delta, omicron, sigma\<close>
  "odos = \<lparr> id = 3, nama = [0x39F, 0x394, 0x39F, 0x3A3], nik = utf16 ''3201234567890003'',
     tanggal_lahir = utf16 ''1985-07-09T00:00:00.000Z'', jenis_kelamin = utf16 ''Laki-laki'',
     alamat = utf16 ''Jl. Kenanga 4'', no_telepon = utf16 ''081211112222'', email = None,
     golongan_darah = utf16 ''B'', created_at = utf16 ''2025-01-03T00:00:00.000Z'',
     updated_at = utf16 ''2025-01-03T00:00:00.000Z'' \<rparr>"

definition nik_exists :: js_value where
  \<comment> \<open>a body of the shape that \<open>ApiError\<close> of \<open>lib/api.ts\<close> declares\<close>
  "nik_exists = JObj [(''success'', JBool False), (''statusCode'', JNum True (utf16 ''409'')),
     (''message'', JStr (utf16 ''Conflict'')),
     (''errors'', JArr [JStr (utf16 ''NIK already exists'')])]"

definition two_errors :: js_value where
  "two_errors = JObj [(''message'', JStr (utf16 ''Bad Request'')),
     (''errors'', JArr [JStr (utf16 ''NIK already exists''), JStr (utf16 ''email must be an email'')])]"

definition message_list :: js_value where
  \<comment> \<open>a body whose \<open>message\<close> is an array and which has no \<open>errors\<close>\<close>
  "message_list = JObj [(''statusCode'', JNum True (utf16 ''400'')),
     (''message'', JArr [JStr (utf16 ''nik must be a number string'')]),
     (''error'', JStr (utf16 ''Bad Request''))]"

definition form_open :: state where
  \<comment> \<open>the form is open on a complete draft, the list holds two records\<close>
  "form_open = initialState \<lparr> patients := [budi, sari], loading := False,
     formData := draft_valid, showForm := True \<rparr>"

section \<open>Strings: case folding, inclusion, trimming, joining\<close>

lemma lower_unit_not_upper: "\<not> is_upper (lower_unit c)"
  unfolding lower_unit_def is_upper_def
  by (cases "is_upper c"; simp add: is_upper_def; unat_arith)

lemma lower_unit_idem: "lower_unit (lower_unit c) = lower_unit c"
  using lower_unit_not_upper[of c] by (simp add: lower_unit_def[of "lower_unit c"])

lemma lower_unit_inj_upper:
  assumes "is_upper c" "is_upper d" "lower_unit c = lower_unit d" shows "c = d"
  using assms by (simp add: lower_unit_def)

lemma same_letter_iff: "same_letter c d \<longleftrightarrow> lower_unit c = lower_unit d"
proof
  assume "same_letter c d"
  then show "lower_unit c = lower_unit d"
    unfolding same_letter_def by (auto simp: lower_unit_idem)
next
  assume eq: "lower_unit c = lower_unit d"
  show "same_letter c d"
  proof (cases "is_upper c")
    case cu: True
    show ?thesis
    proof (cases "is_upper d")
      case True
      have "c = d" using lower_unit_inj_upper[OF cu True eq] .
      then show ?thesis by (simp add: same_letter_def)
    next
      case False
      then have "d = lower_unit c" using eq by (simp add: lower_unit_def)
      with cu show ?thesis by (simp add: same_letter_def)
    qed
  next
    case cl: False
    then have c: "c = lower_unit d" using eq by (simp add: lower_unit_def)
    show ?thesis
    proof (cases "is_upper d")
      case True
      with c show ?thesis by (simp add: same_letter_def)
    next
      case False
      with c have "c = d" by (simp add: lower_unit_def)
      then show ?thesis by (simp add: same_letter_def)
    qed
  qed
qed

lemma list_all2_same_letter:
  "list_all2 same_letter u k \<longleftrightarrow> map lower_unit u = map lower_unit k"
proof (induction u arbitrary: k)
  case Nil
  then show ?case by auto
next
  case (Cons a u)
  then show ?case by (cases k) (auto simp: same_letter_iff)
qed

lemma lower_from_no_sigma:
  "0x3A3 \<notin> set s \<Longrightarrow> lower_from before s = map lower_unit s"
  by (induction s arbitrary: before) auto

lemma latin1_no_sigma: "latin1 s \<Longrightarrow> 0x3A3 \<notin> set s"
proof
  assume l: "latin1 s" and m: "0x3A3 \<in> set s"
  then have "(0x3A3 :: code_unit) < 0x100" unfolding latin1_def by (rule bspec)
  then show False by simp
qed

lemma toLowerCase_latin1: "latin1 s \<Longrightarrow> toLowerCase s = map lower_unit s"
  by (simp add: toLowerCase_def lower_from_no_sigma latin1_no_sigma)

lemma str_includes_sublist: "str_includes s t \<longleftrightarrow> sublist t s"
  by (induction s) (auto simp: sublist_Cons_right)

lemma sublist_map_iff: "sublist t (map f s) \<longleftrightarrow> (\<exists>u. sublist u s \<and> map f u = t)"
proof
  assume "sublist t (map f s)"
  then show "\<exists>u. sublist u s \<and> map f u = t"
    using sublist_map_rightE[of t f s] by auto
next
  assume "\<exists>u. sublist u s \<and> map f u = t"
  then show "sublist t (map f s)" using map_mono_sublist by blast
qed

lemma ci_substring_iff:
  "ci_substring k s \<longleftrightarrow> sublist (map lower_unit k) (map lower_unit s)"
  unfolding ci_substring_def list_all2_same_letter by (simp add: sublist_map_iff)

lemma ci_substring_latin1:
  "latin1 k \<Longrightarrow> latin1 s \<Longrightarrow>
   str_includes (toLowerCase s) (toLowerCase k) \<longleftrightarrow> ci_substring k s"
  by (simp add: ci_substring_iff toLowerCase_latin1 str_includes_sublist)

lemma trim_empty_iff: "trim s = [] \<longleftrightarrow> (\<forall>c \<in> set s. is_space c)"
proof -
  have "trim s = [] \<longleftrightarrow> dropWhile is_space (rev (dropWhile is_space s)) = []"
    by (simp add: trim_def)
  also have "\<dots> \<longleftrightarrow> (\<forall>c \<in> set (dropWhile is_space s). is_space c)"
    by (simp add: dropWhile_eq_Nil_conv)
  also have "\<dots> \<longleftrightarrow> (\<forall>c \<in> set s. is_space c)"
  proof (induction s)
    case Nil
    then show ?case by simp
  next
    case (Cons a s)
    then show ?case by auto
  qed
  finally show ?thesis .
qed

lemma join_interleaved: "join sep xs = interleaved sep xs"
  unfolding interleaved_def by (induction sep xs rule: join.induct) simp_all

subsection \<open>The matcher decides the language of the pattern\<close>

lemma star_cons_iff:
  "c # w \<in> star A \<longleftrightarrow> (\<exists>u v. w = u @ v \<and> c # u \<in> A \<and> v \<in> star A)"
proof
  assume "c # w \<in> star A"
  then show "\<exists>u v. w = u @ v \<and> c # u \<in> A \<and> v \<in> star A"
  proof (induction "c # w" arbitrary: w rule: star.induct)
    case (star_app u v)
    show ?case
    proof (cases u)
      case Nil
      with star_app show ?thesis by simp
    next
      case (Cons a u')
      with star_app(1,2,4) show ?thesis by auto
    qed
  qed
next
  assume "\<exists>u v. w = u @ v \<and> c # u \<in> A \<and> v \<in> star A"
  then obtain u v where "w = u @ v" "c # u \<in> A" "v \<in> star A" by blast
  then show "c # w \<in> star A" using star.star_app[of "c # u" A v] by simp
qed

lemma nullable_iff: "nullable r \<longleftrightarrow> [] \<in> lang r"
  by (induction r) (auto intro: star.star_nil)

lemma lang_deriv: "w \<in> lang (deriv c r) \<longleftrightarrow> c # w \<in> lang r"
proof (induction r arbitrary: w)
  case (Cat r s)
  show ?case
  proof
    assume "w \<in> lang (deriv c (Cat r s))"
    then consider (left) "w \<in> lang (Cat (deriv c r) s)"
      | (right) "nullable r" "w \<in> lang (deriv c s)"
      by (auto split: if_splits)
    then show "c # w \<in> lang (Cat r s)"
    proof cases
      case left
      then obtain u v where "w = u @ v" "u \<in> lang (deriv c r)" "v \<in> lang s" by auto
      then have "c # w = (c # u) @ v" "c # u \<in> lang r" "v \<in> lang s"
        using Cat.IH(1) by auto
      then show ?thesis unfolding lang.simps by blast
    next
      case right
      then have "c # w = [] @ (c # w)" "[] \<in> lang r" "c # w \<in> lang s"
        using Cat.IH(2) by (auto simp: nullable_iff)
      then show ?thesis unfolding lang.simps by blast
    qed
  next
    assume "c # w \<in> lang (Cat r s)"
    then obtain u v where uv: "c # w = u @ v" "u \<in> lang r" "v \<in> lang s" by auto
    show "w \<in> lang (deriv c (Cat r s))"
    proof (cases u)
      case Nil
      with uv Cat show ?thesis by (auto simp: nullable_iff)
    next
      case (Cons a u')
      with uv Cat have "u' \<in> lang (deriv c r)" "w = u' @ v" by auto
      with uv(3) show ?thesis by auto
    qed
  qed
next
  case (Star r)
  then show ?case by (auto simp: star_cons_iff)
qed auto

lemma test_iff: "test r s \<longleftrightarrow> s \<in> lang r"
  unfolding test_def
  by (induction s arbitrary: r) (auto simp: nullable_iff lang_deriv)

lemma star_class: "w \<in> star {[c] | c. P c} \<longleftrightarrow> (\<forall>c \<in> set w. P c)"
proof
  assume "w \<in> star {[c] | c. P c}"
  then show "\<forall>c \<in> set w. P c" by (induction rule: star.induct) auto
next
  assume "\<forall>c \<in> set w. P c"
  then show "w \<in> star {[c] | c. P c}"
  proof (induction w)
    case Nil
    then show ?case by (simp add: star.star_nil)
  next
    case (Cons a w)
    then have "[a] \<in> {[c] | c. P c}" "w \<in> star {[c] | c. P c}" by auto
    then have "[a] @ w \<in> star {[c] | c. P c}" by (rule star.star_app)
    then show ?case by simp
  qed
qed

lemma lang_Cat: "w \<in> lang (Cat r s) \<longleftrightarrow> (\<exists>u v. w = u @ v \<and> u \<in> lang r \<and> v \<in> lang s)"
  by simp

lemma lang_Class_Cat_Nil: "[] \<notin> lang (Cat (Class P) r)"
  by simp

lemma lang_Class_Cat_Cons: "a # v \<in> lang (Cat (Class P) r) \<longleftrightarrow> P a \<and> v \<in> lang r"
proof
  assume "a # v \<in> lang (Cat (Class P) r)"
  then obtain u v' where uv: "a # v = u @ v'" "u \<in> lang (Class P)" "v' \<in> lang r"
    unfolding lang_Cat by blast
  from uv(2) obtain c where "u = [c]" "P c" by auto
  with uv show "P a \<and> v \<in> lang r" by simp
next
  assume "P a \<and> v \<in> lang r"
  then have "[a] \<in> lang (Class P)" "v \<in> lang r" by auto
  then have "[a] @ v \<in> lang (Cat (Class P) r)" unfolding lang_Cat by blast
  then show "a # v \<in> lang (Cat (Class P) r)" by simp
qed

lemma lang_Plus_Class: "w \<in> lang (Plus (Class P)) \<longleftrightarrow> w \<noteq> [] \<and> (\<forall>c \<in> set w. P c)"
proof (cases w)
  case Nil
  then show ?thesis unfolding Plus_def using lang_Class_Cat_Nil by simp
next
  case (Cons a v)
  then show ?thesis unfolding Plus_def lang_Class_Cat_Cons Cons by (simp add: star_class)
qed

lemma test_nik_pattern: "test nik_pattern s \<longleftrightarrow> digits_only s"
  by (simp add: test_iff nik_pattern_def lang_Plus_Class digits_only_def)


lemma lang_Class_Cat:
  "w \<in> lang (Cat (Class P) r) \<longleftrightarrow> (\<exists>a v. w = a # v \<and> P a \<and> v \<in> lang r)"
proof (cases w)
  case Nil
  then show ?thesis using lang_Class_Cat_Nil[of P r] by simp
next
  case (Cons a v)
  then show ?thesis using lang_Class_Cat_Cons[of a v P r] by simp
qed

lemma lang_Class: "w \<in> lang (Class P) \<longleftrightarrow> (\<exists>c. w = [c] \<and> P c)"
  by auto

lemma email_pattern_lang:
  "e \<in> lang email_pattern \<longleftrightarrow>
     (\<exists>x y z. e = x @ [0x40] @ y @ [0x2E] @ z \<and>
        x \<in> lang (Plus (Class not_space_at)) \<and> y \<in> lang (Plus (Class not_space_at)) \<and>
        z \<in> lang (Plus (Class not_space_at)))"
proof
  assume "e \<in> lang email_pattern"
  then obtain x r1 where 1: "e = x @ r1" "x \<in> lang (Plus (Class not_space_at))"
    and r1: "r1 \<in> lang (Cat (Class (\<lambda>c. c = 0x40))
        (Cat (Plus (Class not_space_at)) (Cat (Class (\<lambda>c. c = 0x2E)) (Plus (Class not_space_at)))))"
    unfolding email_pattern_def lang_Cat[of e] by blast
  from r1 obtain r2 where 2: "r1 = 0x40 # r2"
    and r2: "r2 \<in> lang (Cat (Plus (Class not_space_at)) (Cat (Class (\<lambda>c. c = 0x2E)) (Plus (Class not_space_at))))"
    unfolding lang_Class_Cat[of r1] by blast
  from r2 obtain y r3 where 3: "r2 = y @ r3" "y \<in> lang (Plus (Class not_space_at))"
    and r3: "r3 \<in> lang (Cat (Class (\<lambda>c. c = 0x2E)) (Plus (Class not_space_at)))"
    unfolding lang_Cat[of r2] by blast
  from r3 obtain z where 4: "r3 = 0x2E # z" "z \<in> lang (Plus (Class not_space_at))"
    unfolding lang_Class_Cat[of r3] by blast
  have "e = x @ [0x40] @ y @ [0x2E] @ z" using 1(1) 2 3(1) 4(1) by simp
  with 1(2) 3(2) 4(2) show "\<exists>x y z. e = x @ [0x40] @ y @ [0x2E] @ z \<and>
        x \<in> lang (Plus (Class not_space_at)) \<and> y \<in> lang (Plus (Class not_space_at)) \<and>
        z \<in> lang (Plus (Class not_space_at))" by blast
next
  assume "\<exists>x y z. e = x @ [0x40] @ y @ [0x2E] @ z \<and>
        x \<in> lang (Plus (Class not_space_at)) \<and> y \<in> lang (Plus (Class not_space_at)) \<and>
        z \<in> lang (Plus (Class not_space_at))"
  then obtain x y z where e: "e = x @ [0x40] @ y @ [0x2E] @ z"
    and x: "x \<in> lang (Plus (Class not_space_at))" and y: "y \<in> lang (Plus (Class not_space_at))"
    and z: "z \<in> lang (Plus (Class not_space_at))" by blast
  have "0x2E # z \<in> lang (Cat (Class (\<lambda>c. c = 0x2E)) (Plus (Class not_space_at)))"
    using z by (simp only: lang_Class_Cat_Cons)
  with y have "y @ 0x2E # z \<in> lang (Cat (Plus (Class not_space_at))
      (Cat (Class (\<lambda>c. c = 0x2E)) (Plus (Class not_space_at))))"
    unfolding lang_Cat[of "y @ 0x2E # z"] by blast
  then have "0x40 # y @ 0x2E # z \<in> lang (Cat (Class (\<lambda>c. c = 0x40))
      (Cat (Plus (Class not_space_at)) (Cat (Class (\<lambda>c. c = 0x2E)) (Plus (Class not_space_at)))))"
    by (simp only: lang_Class_Cat_Cons)
  with x have "x @ 0x40 # y @ 0x2E # z \<in> lang email_pattern"
    unfolding email_pattern_def lang_Cat[of "x @ 0x40 # y @ 0x2E # z"] by blast
  then show "e \<in> lang email_pattern" using e by simp
qed

lemma test_email_pattern: "test email_pattern e \<longleftrightarrow> email_shape e"
  unfolding test_iff email_pattern_lang email_shape_def lang_Plus_Class not_space_at_def
  by (intro ex_cong1) auto

section \<open>The validator, field by field\<close>

lemma flagged_append: "flagged (xs @ ys) k \<longleftrightarrow> flagged xs k \<or> flagged ys k"
  by (auto simp: flagged_def map_add_def split: option.splits)

lemma flagged_if: "flagged (if b then [(k', v)] else []) k \<longleftrightarrow> b \<and> k = k'"
  by (auto simp: flagged_def)

lemma flagged_if2:
  "flagged (if b then [(k1, v1)] else if c then [(k2, v2)] else []) k \<longleftrightarrow>
     (b \<and> k = k1) \<or> (\<not> b \<and> c \<and> k = k2)"
  by (auto simp: flagged_def)

lemma flagged_newErrors:
  "flagged (newErrors fd) k \<longleftrightarrow>
     (trim (PatientFormData.nama fd) = [] \<and> k = ''nama'') \<or>
     ((trim (PatientFormData.nik fd) = [] \<and> k = ''nik'') \<or>
      (trim (PatientFormData.nik fd) \<noteq> [] \<and> \<not> digits_only (PatientFormData.nik fd) \<and> k = ''nik'')) \<or>
     (PatientFormData.tanggal_lahir fd = [] \<and> k = ''tanggal_lahir'') \<or>
     (PatientFormData.jenis_kelamin fd = [] \<and> k = ''jenis_kelamin'') \<or>
     (trim (PatientFormData.alamat fd) = [] \<and> k = ''alamat'') \<or>
     (trim (PatientFormData.no_telepon fd) = [] \<and> k = ''no_telepon'') \<or>
     (PatientFormData.golongan_darah fd = [] \<and> k = ''golongan_darah'') \<or>
     ((PatientFormData.email fd \<noteq> [] \<and> \<not> email_shape (PatientFormData.email fd)) \<and> k = ''email'')"
  unfolding newErrors_def flagged_append flagged_if flagged_if2 test_nik_pattern test_email_pattern
  by (rule refl)

lemma flagged_nama: "flagged (newErrors fd) ''nama'' \<longleftrightarrow> trim (PatientFormData.nama fd) = []"
  by (simp add: flagged_newErrors)

lemma flagged_nik:
  "flagged (newErrors fd) ''nik'' \<longleftrightarrow>
     trim (PatientFormData.nik fd) = [] \<or> \<not> digits_only (PatientFormData.nik fd)"
  unfolding flagged_newErrors by simp argo

lemma flagged_tanggal_lahir:
  "flagged (newErrors fd) ''tanggal_lahir'' \<longleftrightarrow> PatientFormData.tanggal_lahir fd = []"
  by (simp add: flagged_newErrors)

lemma flagged_jenis_kelamin:
  "flagged (newErrors fd) ''jenis_kelamin'' \<longleftrightarrow> PatientFormData.jenis_kelamin fd = []"
  by (simp add: flagged_newErrors)

lemma flagged_alamat: "flagged (newErrors fd) ''alamat'' \<longleftrightarrow> trim (PatientFormData.alamat fd) = []"
  by (simp add: flagged_newErrors)

lemma flagged_no_telepon:
  "flagged (newErrors fd) ''no_telepon'' \<longleftrightarrow> trim (PatientFormData.no_telepon fd) = []"
  by (simp add: flagged_newErrors)

lemma flagged_golongan_darah:
  "flagged (newErrors fd) ''golongan_darah'' \<longleftrightarrow> PatientFormData.golongan_darah fd = []"
  by (simp add: flagged_newErrors)

lemma flagged_email:
  "flagged (newErrors fd) ''email'' \<longleftrightarrow>
     PatientFormData.email fd \<noteq> [] \<and> \<not> email_shape (PatientFormData.email fd)"
  by (simp add: flagged_newErrors)


lemma if_single_Nil: "(if b then [x] else []) = [] \<longleftrightarrow> \<not> b"
  by simp

lemma if_single2_Nil: "(if b then [x] else if c then [y] else []) = [] \<longleftrightarrow> \<not> b \<and> \<not> c"
  by simp

lemma newErrors_Nil_iff:
  "newErrors fd = [] \<longleftrightarrow>
     trim (PatientFormData.nama fd) \<noteq> [] \<and>
     (trim (PatientFormData.nik fd) \<noteq> [] \<and> digits_only (PatientFormData.nik fd)) \<and>
     PatientFormData.tanggal_lahir fd \<noteq> [] \<and>
     PatientFormData.jenis_kelamin fd \<noteq> [] \<and> trim (PatientFormData.alamat fd) \<noteq> [] \<and>
     trim (PatientFormData.no_telepon fd) \<noteq> [] \<and> PatientFormData.golongan_darah fd \<noteq> [] \<and>
     (PatientFormData.email fd = [] \<or> email_shape (PatientFormData.email fd))"
  unfolding newErrors_def append_is_Nil_conv if_single_Nil if_single2_Nil
    test_nik_pattern test_email_pattern
  by simp

lemma not_missing_iff:
  "(\<forall>k. \<not> missing fd k) \<longleftrightarrow>
     trim (PatientFormData.nama fd) \<noteq> [] \<and> trim (PatientFormData.nik fd) \<noteq> [] \<and>
     PatientFormData.tanggal_lahir fd \<noteq> [] \<and>
     PatientFormData.jenis_kelamin fd \<noteq> [] \<and> trim (PatientFormData.alamat fd) \<noteq> [] \<and>
     trim (PatientFormData.no_telepon fd) \<noteq> [] \<and> PatientFormData.golongan_darah fd \<noteq> []"
proof
  assume a: "\<forall>k. \<not> missing fd k"
  have "\<not> missing fd ''nama''" "\<not> missing fd ''nik''" "\<not> missing fd ''tanggal_lahir''"
    "\<not> missing fd ''jenis_kelamin''" "\<not> missing fd ''alamat''" "\<not> missing fd ''no_telepon''"
    "\<not> missing fd ''golongan_darah''"
    using a by simp_all
  then show "trim (PatientFormData.nama fd) \<noteq> [] \<and> trim (PatientFormData.nik fd) \<noteq> [] \<and>
     PatientFormData.tanggal_lahir fd \<noteq> [] \<and>
     PatientFormData.jenis_kelamin fd \<noteq> [] \<and> trim (PatientFormData.alamat fd) \<noteq> [] \<and>
     trim (PatientFormData.no_telepon fd) \<noteq> [] \<and> PatientFormData.golongan_darah fd \<noteq> []"
    by (simp add: missing_def)
next
  assume "trim (PatientFormData.nama fd) \<noteq> [] \<and> trim (PatientFormData.nik fd) \<noteq> [] \<and>
     PatientFormData.tanggal_lahir fd \<noteq> [] \<and>
     PatientFormData.jenis_kelamin fd \<noteq> [] \<and> trim (PatientFormData.alamat fd) \<noteq> [] \<and>
     trim (PatientFormData.no_telepon fd) \<noteq> [] \<and> PatientFormData.golongan_darah fd \<noteq> []"
  then show "\<forall>k. \<not> missing fd k" by (simp add: missing_def)
qed

lemma missing_flagged: "missing fd k \<Longrightarrow> flagged (newErrors fd) k"
  unfolding missing_def flagged_newErrors by argo

lemma missing_not_valid: "missing fd k \<Longrightarrow> newErrors fd \<noteq> []"
  using missing_flagged[of fd k] by (auto simp: flagged_def)

lemma newErrors_rules: "newErrors fd = [] \<longleftrightarrow> rules_hold fd"
  unfolding rules_hold_def not_missing_iff newErrors_Nil_iff by argo

lemma non_digit_not_digits_only: "\<exists>c \<in> set s. \<not> is_digit c \<Longrightarrow> \<not> digits_only s"
  by (auto simp: digits_only_def)

lemma newErrors_only_nik:
  assumes "trim (PatientFormData.nama fd) \<noteq> []"
    and "trim (PatientFormData.nik fd) \<noteq> []" and "\<not> digits_only (PatientFormData.nik fd)"
    and "PatientFormData.tanggal_lahir fd \<noteq> []" and "PatientFormData.jenis_kelamin fd \<noteq> []"
    and "trim (PatientFormData.alamat fd) \<noteq> []" and "trim (PatientFormData.no_telepon fd) \<noteq> []"
    and "PatientFormData.golongan_darah fd \<noteq> []"
    and "PatientFormData.email fd = [] \<or> email_shape (PatientFormData.email fd)"
  shows "newErrors fd = [(''nik'', utf16 ''NIK hanya boleh berisi angka'')]"
proof -
  have e: "\<not> (PatientFormData.email fd \<noteq> [] \<and> \<not> test email_pattern (PatientFormData.email fd))"
    using assms(9) by (simp add: test_email_pattern)
  have n: "\<not> test nik_pattern (PatientFormData.nik fd)"
    using assms(3) by (simp add: test_nik_pattern)
  show ?thesis
    unfolding newErrors_def
    by (simp only: assms(1,2,4,5,6,7,8) e n if_False if_True not_False_eq_True append_Nil append_Nil2 not_True_eq_False)
qed

lemma trim_Ana: "trim (utf16 ''Ana'') \<noteq> []"
  by code_simp

lemma trim_12AB: "trim (utf16 ''12AB'') \<noteq> []"
  by code_simp

lemma not_digits_12AB: "\<not> digits_only (utf16 ''12AB'')"
  unfolding test_nik_pattern[symmetric] by code_simp

lemma email_shape_has_at: "email_shape e \<Longrightarrow> 0x40 \<in> set e"
proof -
  assume "email_shape e"
  then obtain x y z where "e = x @ [0x40] @ y @ [0x2E] @ z"
    unfolding email_shape_def by (elim exE conjE)
  then show ?thesis by simp
qed

lemma email_shape_domain_segment: "email_shape e \<Longrightarrow> domain_segment e"
proof -
  assume "email_shape e"
  then obtain x y z where "e = x @ [0x40] @ y @ [0x2E] @ z" "y \<noteq> []"
    unfolding email_shape_def by (elim exE conjE)
  then show "domain_segment e" unfolding domain_segment_def by (intro exI conjI)
qed

lemma domain_segment_has_dot: "domain_segment e \<Longrightarrow> 0x2E \<in> set e"
proof -
  assume "domain_segment e"
  then obtain x y z where "e = x @ [0x40] @ y @ [0x2E] @ z"
    unfolding domain_segment_def by (elim exE conjE)
  then show ?thesis by simp
qed

lemma tab_email_shape_spaces: "email_shape_spaces tab_email"
proof -
  have "tab_email = (utf16 ''a'' @ [0x9] @ utf16 ''b'') @ [0x40] @ utf16 ''c'' @ [0x2E] @ utf16 ''d''"
    by (simp add: tab_email_def utf16_def)
  moreover have "utf16 ''a'' @ [0x9] @ utf16 ''b'' \<noteq> []" "utf16 ''c'' \<noteq> []" "utf16 ''d'' \<noteq> []"
    by (simp_all add: utf16_def)
  moreover have "\<forall>c \<in> set ((utf16 ''a'' @ [0x9] @ utf16 ''b'') @ utf16 ''c'' @ utf16 ''d'').
      c \<noteq> 0x20 \<and> c \<noteq> 0x40"
    by (simp add: utf16_def)
  ultimately show ?thesis unfolding email_shape_spaces_def by (intro exI conjI)
qed

lemma tab_email_flagged: "flagged (newErrors (draft_valid\<lparr>email := tab_email\<rparr>)) ''email''"
  by code_simp

section \<open>The list filter\<close>

lemma filteredPatients_filter:
  "filteredPatients lower ps k =
     filter (\<lambda>p. sublist (lower k) (lower (Patient.nama p)) \<or> sublist k (Patient.nik p)) ps"
  unfolding filteredPatients_def str_includes_sublist ..

lemma str_includes_Nil: "str_includes s []"
  by (simp add: str_includes_sublist)

lemma filteredPatients_empty_keyword: "filteredPatients lower ps [] = ps"
  by (simp add: filteredPatients_def str_includes_Nil)

lemma filteredPatients_latin1:
  assumes "latin1 k" and "\<forall>p \<in> set ps. latin1 (Patient.nama p)"
  shows "filteredPatients toLowerCase ps k =
     filter (\<lambda>p. ci_substring k (Patient.nama p) \<or> sublist k (Patient.nik p)) ps"
  unfolding filteredPatients_def
proof (rule filter_cong[OF refl])
  fix p assume "p \<in> set ps"
  then have "latin1 (Patient.nama p)" using assms(2) by simp
  then show "(str_includes (toLowerCase (Patient.nama p)) (toLowerCase k) \<or>
      str_includes (Patient.nik p) k) =
     (ci_substring k (Patient.nama p) \<or> sublist k (Patient.nik p))"
    using ci_substring_latin1[OF assms(1)] by (simp add: str_includes_sublist)
qed

lemma not_includes_bu_Sari:
  "\<not> str_includes (toLowerCase (utf16 ''Sari'')) (toLowerCase (utf16 ''bu''))"
  by code_simp

lemma includes_bu_Budi:
  "str_includes (toLowerCase (utf16 ''Budi'')) (toLowerCase (utf16 ''bu''))"
  by code_simp

lemma count_list_filter:
  "count_list (filter P xs) x = (if P x then count_list xs x else 0)"
  by (induction xs) auto

section \<open>The handlers, case by case\<close>

lemma handleSubmit_invalid:
  assumes "newErrors (formData s) \<noteq> []"
  shows "handleSubmit saved fetched s =
    s\<lparr>successMessage := [], errorMessage := JStr [], state.errors := newErrors (formData s)\<rparr>"
  using assms by (simp add: handleSubmit_def validateForm_def Let_def)

lemma handleSubmit_rejected:
  assumes "newErrors (formData s) = []"
  shows "handleSubmit (Rejected error) fetched s =
    (case submitFailure error of
       Inr m \<Rightarrow> s\<lparr>successMessage := [], errorMessage := m, state.errors := [],
                 requests := requests s @ [submitRequest s]\<rparr>
     | Inl e \<Rightarrow> s\<lparr>successMessage := [], errorMessage := JStr [], state.errors := [],
                 requests := requests s @ [submitRequest s],
                 uncaught := uncaught s @ [e]\<rparr>)"
  using assms
  by (simp add: handleSubmit_def validateForm_def Let_def send_def submitRequest_def
      split: option.splits sum.splits)

lemma handleSubmit_resolved:
  assumes "newErrors (formData s) = []"
  shows "handleSubmit (Resolved p) fetched s =
    fetchPatients fetched
      (s\<lparr>successMessage := submitSuccess s, errorMessage := JStr [], state.errors := [],
         formData := initialFormData, editingId := None, showForm := False,
         requests := requests s @ [submitRequest s]\<rparr>)"
  using assms
  by (cases s) (simp add: handleSubmit_def validateForm_def Let_def send_def submitRequest_def submitSuccess_def split: option.splits)

lemma requests_fetchPatients: "requests (fetchPatients r s) = requests s @ [GetAllPatients]"
  by (simp add: fetchPatients_def send_def Let_def split: outcome.splits)

lemma patients_fetchPatients:
  "patients (fetchPatients r s) = (case r of Resolved data \<Rightarrow> data | Rejected e \<Rightarrow> patients s)"
  by (simp add: fetchPatients_def send_def Let_def split: outcome.splits)

lemma fetchPatients_rejected:
  "fetchPatients (Rejected e) s =
     s\<lparr>loading := False,
       errorMessage := JStr (utf16 ''Gagal mengambil data pasien. Pastikan backend sudah berjalan.''),
       requests := requests s @ [GetAllPatients]\<rparr>"
  by (simp add: fetchPatients_def send_def Let_def)

lemma fetchPatients_resolved:
  "fetchPatients (Resolved data) s =
     s\<lparr>loading := False, patients := data, requests := requests s @ [GetAllPatients]\<rparr>"
  by (simp add: fetchPatients_def send_def Let_def)

lemma handleDelete_rejected:
  "handleDelete True (Rejected e) fetched i n s =
     s\<lparr>requests := requests s @ [DeletePatient i],
       errorMessage := JStr (utf16 ''Gagal menghapus data pasien'')\<rparr>"
  by (simp add: handleDelete_def send_def Let_def)

lemma handleDelete_resolved:
  "handleDelete True (Resolved u) fetched i n s =
     fetchPatients fetched
       (s\<lparr>requests := requests s @ [DeletePatient i],
          successMessage := utf16 ''Data pasien berhasil dihapus!''\<rparr>)"
  by (simp add: handleDelete_def send_def Let_def)

lemma handleDelete_declined: "handleDelete False deleted fetched i n s = s"
  by (simp add: handleDelete_def)

lemma handleSubmit_rejected_frame:
  assumes "newErrors (formData s) = []"
  shows "formData (handleSubmit (Rejected error) fetched s) = formData s"
    and "showForm (handleSubmit (Rejected error) fetched s) = showForm s"
    and "editingId (handleSubmit (Rejected error) fetched s) = editingId s"
    and "patients (handleSubmit (Rejected error) fetched s) = patients s"
    and "requests (handleSubmit (Rejected error) fetched s) = requests s @ [submitRequest s]"
    and "successMessage (handleSubmit (Rejected error) fetched s) = []"
  unfolding handleSubmit_rejected[OF assms] by (simp_all split: sum.splits)

lemma array_join_strings: "array_join sep (map JStr xs) = join sep xs"
proof -
  have "map (\<lambda>x. if x = JUndefined \<or> x = JNull then [] else toString x) (map JStr xs) = xs"
    by (induction xs) simp_all
  then show ?thesis by (simp add: array_join_def)
qed

lemma submitFailure_null: "submitFailure (AxiosResponse JNull) = Inl TypeError"
  by (simp add: submitFailure_def get_property_def)

lemma submitFailure_undefined: "submitFailure (AxiosResponse JUndefined) = Inl TypeError"
  by (simp add: submitFailure_def get_property_def)

lemma submitFailure_errors:
  "map_of fs ''errors'' = Some (JArr (map JStr xs)) \<Longrightarrow>
   submitFailure (AxiosResponse (JObj fs)) = Inr (JStr (interleaved (utf16 '', '') xs))"
  by (simp add: submitFailure_def get_property_def array_join_strings join_interleaved)

lemma submitFailure_message:
  "get_property body ''errors'' = Inr e \<Longrightarrow> \<forall>xs. e \<noteq> JArr xs \<Longrightarrow>
   get_property body ''message'' = Inr m \<Longrightarrow> truthy m \<Longrightarrow>
   submitFailure (AxiosResponse body) = Inr m"
  by (cases e) (simp_all add: submitFailure_def)

lemma submitFailure_generic:
  "get_property body ''errors'' = Inr e \<Longrightarrow> \<forall>xs. e \<noteq> JArr xs \<Longrightarrow>
   get_property body ''message'' = Inr m \<Longrightarrow> \<not> truthy m \<Longrightarrow>
   submitFailure (AxiosResponse body) = Inr (JStr (utf16 ''Terjadi kesalahan''))"
  by (cases e) (simp_all add: submitFailure_def)

lemma submitFailure_no_response:
  "\<forall>body. error \<noteq> AxiosResponse body \<Longrightarrow>
   submitFailure error = Inr (JStr (utf16 ''Terjadi kesalahan saat menyimpan data''))"
  by (cases error) (simp_all add: submitFailure_def)

lemma submitFailure_examples:
  "submitFailure (AxiosResponse nik_exists) = Inr (JStr (utf16 ''NIK already exists''))"
  "submitFailure (AxiosResponse two_errors) =
     Inr (JStr (utf16 ''NIK already exists, email must be an email''))"
  "submitFailure (AxiosResponse message_list) =
     Inr (JArr [JStr (utf16 ''nik must be a number string'')])"
  "submitFailure (AxiosResponse (JStr [])) = Inr (JStr (utf16 ''Terjadi kesalahan''))"
  by code_simp+

lemma handleSubmit_rejected_message:
  assumes "newErrors (formData s) = []" and "submitFailure error = Inr m"
  shows "errorMessage (handleSubmit (Rejected error) fetched s) = m"
  unfolding handleSubmit_rejected[OF assms(1)] using assms(2) by simp

lemma handleSubmit_rejected_throws:
  assumes "newErrors (formData s) = []" and "submitFailure error = Inl e"
  shows "errorMessage (handleSubmit (Rejected error) fetched s) = JStr []"
    and "uncaught (handleSubmit (Rejected error) fetched s) = uncaught s @ [e]"
  unfolding handleSubmit_rejected[OF assms(1)] using assms(2) by simp_all

section \<open>The claims\<close>

text \<open>
  C1. For every draft the validator's mapping has an entry for each required field
  (name, identity number, date of birth, sex, address, phone, blood group) that is
  missing, that is empty, after trimming for the four text inputs; a draft with a
  missing field gets a non-empty mapping; and the mapping is empty exactly when every
  rule holds, which is also the boolean that \<open>validateForm\<close> returns next to the
  state that records the mapping.
\<close>

theorem validator_required_fields:
  "(\<forall>k. missing fd k \<longrightarrow> flagged (newErrors fd) k) \<and>
   ((\<exists>k. missing fd k) \<longrightarrow> newErrors fd \<noteq> []) \<and>
   (newErrors fd = [] \<longleftrightarrow> rules_hold fd) \<and>
   validateForm s = (rules_hold (formData s), s\<lparr>state.errors := newErrors (formData s)\<rparr>)"
proof (intro conjI)
  show "\<forall>k. missing fd k \<longrightarrow> flagged (newErrors fd) k"
    using missing_flagged by simp
  show "(\<exists>k. missing fd k) \<longrightarrow> newErrors fd \<noteq> []"
    using missing_not_valid by blast
  show "newErrors fd = [] \<longleftrightarrow> rules_hold fd"
    by (rule newErrors_rules)
  show "validateForm s = (rules_hold (formData s), s\<lparr>state.errors := newErrors (formData s)\<rparr>)"
    by (simp add: validateForm_def Let_def newErrors_rules)
qed

text \<open>
  The theorem at a draft whose address is blank and whose blood group is not chosen, and
  at a complete draft.
\<close>

theorem validator_required_fields_witness:
  "missing draft_blank_address ''alamat'' \<and> missing draft_blank_address ''golongan_darah'' \<and>
   flagged (newErrors draft_blank_address) ''alamat'' \<and>
   flagged (newErrors draft_blank_address) ''golongan_darah'' \<and>
   newErrors draft_blank_address \<noteq> [] \<and>
   \<not> fst (validateForm (form_open\<lparr>formData := draft_blank_address\<rparr>)) \<and>
   newErrors draft_valid = [] \<and> fst (validateForm form_open)"
proof -
  note inst = validator_required_fields[of draft_blank_address "form_open\<lparr>formData := draft_blank_address\<rparr>"]
  have m1: "missing draft_blank_address ''alamat''" by code_simp
  have m2: "missing draft_blank_address ''golongan_darah''" by code_simp
  from inst have all: "\<forall>k. missing draft_blank_address k \<longrightarrow> flagged (newErrors draft_blank_address) k"
    by (rule conjunct1)
  from inst have ne: "(\<exists>k. missing draft_blank_address k) \<longrightarrow> newErrors draft_blank_address \<noteq> []"
    by (rule conjunct2[THEN conjunct1])
  from inst have iff: "newErrors draft_blank_address = [] \<longleftrightarrow> rules_hold draft_blank_address"
    by (rule conjunct2[THEN conjunct2, THEN conjunct1])
  from inst have vf: "validateForm (form_open\<lparr>formData := draft_blank_address\<rparr>) =
      (rules_hold draft_blank_address,
       form_open\<lparr>formData := draft_blank_address, state.errors := newErrors draft_blank_address\<rparr>)"
    by simp
  have f1: "flagged (newErrors draft_blank_address) ''alamat''" using all[rule_format, OF m1] .
  have f2: "flagged (newErrors draft_blank_address) ''golongan_darah''" using all[rule_format, OF m2] .
  have n: "newErrors draft_blank_address \<noteq> []" using ne[rule_format, OF exI, OF m1] .
  have nv: "\<not> fst (validateForm (form_open\<lparr>formData := draft_blank_address\<rparr>))"
    using vf iff n by simp
  have v: "newErrors draft_valid = []" by code_simp
  have "formData form_open = draft_valid" by (simp add: form_open_def)
  then have fv: "fst (validateForm form_open)"
    using validator_required_fields[of draft_valid form_open] v by simp
  from m1 m2 f1 f2 n nv v fv show ?thesis by simp
qed

text \<open>
  C3, amended. A draft whose identity number contains a character that is not a digit
  gets an entry for the identity number, whatever the other fields hold. For a draft with
  the name Ana, the identity number 12AB, the other required fields filled and the
  optional email empty or of the shape \<open>x@y.z\<close>, the mapping holds the identity-number
  error and nothing else.
\<close>

theorem nik_non_digit_flagged:
  "((\<exists>c \<in> set (PatientFormData.nik fd). \<not> is_digit c) \<longrightarrow> flagged (newErrors fd) ''nik'') \<and>
   (PatientFormData.nama fd = utf16 ''Ana'' \<and> PatientFormData.nik fd = utf16 ''12AB'' \<and>
    PatientFormData.tanggal_lahir fd \<noteq> [] \<and> PatientFormData.jenis_kelamin fd \<noteq> [] \<and>
    trim (PatientFormData.alamat fd) \<noteq> [] \<and> trim (PatientFormData.no_telepon fd) \<noteq> [] \<and>
    PatientFormData.golongan_darah fd \<noteq> [] \<and>
    (PatientFormData.email fd = [] \<or> email_shape (PatientFormData.email fd)) \<longrightarrow>
    newErrors fd = [(''nik'', utf16 ''NIK hanya boleh berisi angka'')])"
proof (intro conjI impI)
  assume "\<exists>c \<in> set (PatientFormData.nik fd). \<not> is_digit c"
  then have "\<not> digits_only (PatientFormData.nik fd)" by (rule non_digit_not_digits_only)
  then show "flagged (newErrors fd) ''nik''" by (simp add: flagged_nik)
next
  assume a: "PatientFormData.nama fd = utf16 ''Ana'' \<and> PatientFormData.nik fd = utf16 ''12AB'' \<and>
    PatientFormData.tanggal_lahir fd \<noteq> [] \<and> PatientFormData.jenis_kelamin fd \<noteq> [] \<and>
    trim (PatientFormData.alamat fd) \<noteq> [] \<and> trim (PatientFormData.no_telepon fd) \<noteq> [] \<and>
    PatientFormData.golongan_darah fd \<noteq> [] \<and>
    (PatientFormData.email fd = [] \<or> email_shape (PatientFormData.email fd))"
  show "newErrors fd = [(''nik'', utf16 ''NIK hanya boleh berisi angka'')]"
  proof (rule newErrors_only_nik)
    show "trim (PatientFormData.nama fd) \<noteq> []" using a trim_Ana by simp
    show "trim (PatientFormData.nik fd) \<noteq> []" using a trim_12AB by simp
    show "\<not> digits_only (PatientFormData.nik fd)" using a not_digits_12AB by simp
  qed (use a in simp_all)
qed

text \<open>
  The theorem at the draft of the scenario, with the email left empty and with an email
  filled in.
\<close>

theorem nik_non_digit_flagged_witness:
  "(\<exists>c \<in> set (PatientFormData.nik draft_ana). \<not> is_digit c) \<and>
   flagged (newErrors draft_ana) ''nik'' \<and>
   newErrors draft_ana = [(''nik'', utf16 ''NIK hanya boleh berisi angka'')] \<and>
   newErrors (draft_ana\<lparr>email := utf16 ''ana@example.com''\<rparr>) =
     [(''nik'', utf16 ''NIK hanya boleh berisi angka'')]"
proof -
  have h: "\<exists>c \<in> set (PatientFormData.nik draft_ana). \<not> is_digit c"
    by (simp add: draft_ana_def is_digit_def utf16_def)
  have f: "flagged (newErrors draft_ana) ''nik''"
    using nik_non_digit_flagged[of draft_ana, THEN conjunct1, rule_format, OF h] .
  have t: "trim (utf16 ''Jl. Mawar 2'') \<noteq> []" "trim (utf16 ''0812000111'') \<noteq> []"
    by code_simp+
  have ne: "utf16 ''1995-05-17'' \<noteq> []" "utf16 ''Perempuan'' \<noteq> []" "utf16 ''AB'' \<noteq> []"
    by (simp_all add: utf16_def)
  have s: "PatientFormData.nama draft_ana = utf16 ''Ana'' \<and> PatientFormData.nik draft_ana = utf16 ''12AB'' \<and>
    PatientFormData.tanggal_lahir draft_ana \<noteq> [] \<and> PatientFormData.jenis_kelamin draft_ana \<noteq> [] \<and>
    trim (PatientFormData.alamat draft_ana) \<noteq> [] \<and> trim (PatientFormData.no_telepon draft_ana) \<noteq> [] \<and>
    PatientFormData.golongan_darah draft_ana \<noteq> [] \<and>
    (PatientFormData.email draft_ana = [] \<or> email_shape (PatientFormData.email draft_ana))"
    using t ne by (simp add: draft_ana_def)
  have n: "newErrors draft_ana = [(''nik'', utf16 ''NIK hanya boleh berisi angka'')]"
    using nik_non_digit_flagged[of draft_ana, THEN conjunct2, rule_format, OF s] .
  have sh: "email_shape (utf16 ''ana@example.com'')"
    unfolding test_email_pattern[symmetric] by code_simp
  let ?d = "draft_ana\<lparr>email := utf16 ''ana@example.com''\<rparr>"
  have s2: "PatientFormData.nama ?d = utf16 ''Ana'' \<and> PatientFormData.nik ?d = utf16 ''12AB'' \<and>
    PatientFormData.tanggal_lahir ?d \<noteq> [] \<and> PatientFormData.jenis_kelamin ?d \<noteq> [] \<and>
    trim (PatientFormData.alamat ?d) \<noteq> [] \<and> trim (PatientFormData.no_telepon ?d) \<noteq> [] \<and>
    PatientFormData.golongan_darah ?d \<noteq> [] \<and>
    (PatientFormData.email ?d = [] \<or> email_shape (PatientFormData.email ?d))"
    using sh t ne by (simp add: draft_ana_def)
  have n2: "newErrors ?d = [(''nik'', utf16 ''NIK hanya boleh berisi angka'')]"
    using nik_non_digit_flagged[of ?d, THEN conjunct2, rule_format, OF s2] .
  from h f n n2 show ?thesis by simp
qed

text \<open>
  The claim as written leaves the email open: the draft of the scenario with the email
  \<open>x\<close> has the name, the identity number and the other required fields as the scenario
  says, and its mapping holds an email error next to the identity-number error.
\<close>

theorem ana_with_bad_email:
  "PatientFormData.nama (draft_ana\<lparr>email := utf16 ''x''\<rparr>) = utf16 ''Ana'' \<and>
   PatientFormData.nik (draft_ana\<lparr>email := utf16 ''x''\<rparr>) = utf16 ''12AB'' \<and>
   PatientFormData.tanggal_lahir (draft_ana\<lparr>email := utf16 ''x''\<rparr>) \<noteq> [] \<and>
   PatientFormData.jenis_kelamin (draft_ana\<lparr>email := utf16 ''x''\<rparr>) \<noteq> [] \<and>
   trim (PatientFormData.alamat (draft_ana\<lparr>email := utf16 ''x''\<rparr>)) \<noteq> [] \<and>
   trim (PatientFormData.no_telepon (draft_ana\<lparr>email := utf16 ''x''\<rparr>)) \<noteq> [] \<and>
   PatientFormData.golongan_darah (draft_ana\<lparr>email := utf16 ''x''\<rparr>) \<noteq> [] \<and>
   newErrors (draft_ana\<lparr>email := utf16 ''x''\<rparr>) =
     [(''nik'', utf16 ''NIK hanya boleh berisi angka''),
      (''email'', utf16 ''Format email tidak valid'')]"
proof -
  have t: "trim (utf16 ''Jl. Mawar 2'') \<noteq> []" "trim (utf16 ''0812000111'') \<noteq> []"
    by code_simp+
  have ne: "utf16 ''1995-05-17'' \<noteq> []" "utf16 ''Perempuan'' \<noteq> []" "utf16 ''AB'' \<noteq> []"
    by (simp_all add: utf16_def)
  have n: "newErrors (draft_ana\<lparr>email := utf16 ''x''\<rparr>) =
     [(''nik'', utf16 ''NIK hanya boleh berisi angka''),
      (''email'', utf16 ''Format email tidak valid'')]"
    by code_simp
  show ?thesis using t ne n by (simp add: draft_ana_def)
qed

text \<open>
  C4, amended. The validator never flags an email of the shape \<open>x@y.z\<close> (three non-empty
  parts without white space or \<open>@\<close>), never flags the empty email, and flags every
  non-empty email that lacks an \<open>@\<close> or a domain segment.
\<close>

theorem email_rule:
  "(email_shape (PatientFormData.email fd) \<longrightarrow> \<not> flagged (newErrors fd) ''email'') \<and>
   (PatientFormData.email fd \<noteq> [] \<and>
    (0x40 \<notin> set (PatientFormData.email fd) \<or> \<not> domain_segment (PatientFormData.email fd)) \<longrightarrow>
    flagged (newErrors fd) ''email'') \<and>
   (PatientFormData.email fd = [] \<longrightarrow> \<not> flagged (newErrors fd) ''email'')"
proof (intro conjI impI)
  assume "email_shape (PatientFormData.email fd)"
  then show "\<not> flagged (newErrors fd) ''email''" by (simp add: flagged_email)
next
  assume a: "PatientFormData.email fd \<noteq> [] \<and>
    (0x40 \<notin> set (PatientFormData.email fd) \<or> \<not> domain_segment (PatientFormData.email fd))"
  then have "\<not> email_shape (PatientFormData.email fd)"
    using email_shape_has_at[of "PatientFormData.email fd"]
      email_shape_domain_segment[of "PatientFormData.email fd"]
    by (elim conjE disjE) (rule notI, simp)+
  with a show "flagged (newErrors fd) ''email''" by (simp add: flagged_email)
next
  assume "PatientFormData.email fd = []"
  then show "\<not> flagged (newErrors fd) ''email''" by (simp add: flagged_email)
qed

text \<open>
  The theorem at a well-shaped email, at one without \<open>@\<close>, at one without a dot after
  the \<open>@\<close>, and at the empty email.
\<close>

theorem email_rule_witness:
  "email_shape (PatientFormData.email draft_valid) \<and>
   \<not> flagged (newErrors draft_valid) ''email'' \<and>
   flagged (newErrors (draft_valid\<lparr>email := utf16 ''budi.example.com''\<rparr>)) ''email'' \<and>
   flagged (newErrors (draft_valid\<lparr>email := utf16 ''budi@example''\<rparr>)) ''email'' \<and>
   \<not> flagged (newErrors (draft_valid\<lparr>email := []\<rparr>)) ''email''"
proof -
  have "email_shape (utf16 ''budi@example.com'')"
    unfolding test_email_pattern[symmetric] by code_simp
  then have sh: "email_shape (PatientFormData.email draft_valid)"
    by (simp add: draft_valid_def)
  have ok: "\<not> flagged (newErrors draft_valid) ''email''"
    using email_rule[of draft_valid, THEN conjunct1, rule_format, OF sh] .
  let ?a = "draft_valid\<lparr>email := utf16 ''budi.example.com''\<rparr>"
  have ha: "PatientFormData.email ?a \<noteq> [] \<and>
    (0x40 \<notin> set (PatientFormData.email ?a) \<or> \<not> domain_segment (PatientFormData.email ?a))"
    by (simp add: utf16_def)
  have fa: "flagged (newErrors ?a) ''email''"
    using email_rule[of ?a, THEN conjunct2, THEN conjunct1, rule_format, OF ha] .
  let ?b = "draft_valid\<lparr>email := utf16 ''budi@example''\<rparr>"
  have nd: "0x2E \<notin> set (utf16 ''budi@example'')" by (simp add: utf16_def)
  have "\<not> domain_segment (utf16 ''budi@example'')"
  proof
    assume "domain_segment (utf16 ''budi@example'')"
    then have "0x2E \<in> set (utf16 ''budi@example'')" by (rule domain_segment_has_dot)
    with nd show False by (rule notE)
  qed
  then have hb: "PatientFormData.email ?b \<noteq> [] \<and>
    (0x40 \<notin> set (PatientFormData.email ?b) \<or> \<not> domain_segment (PatientFormData.email ?b))"
    by (simp add: utf16_def)
  have fb: "flagged (newErrors ?b) ''email''"
    using email_rule[of ?b, THEN conjunct2, THEN conjunct1, rule_format, OF hb] .
  let ?c = "draft_valid\<lparr>email := []\<rparr>"
  have hc: "PatientFormData.email ?c = []" by simp
  have fc: "\<not> flagged (newErrors ?c) ''email''"
    using email_rule[of ?c, THEN conjunct2, THEN conjunct2, rule_format, OF hc] .
  from sh ok fa fb fc show ?thesis by simp
qed

text \<open>
  The claim as written fails twice. The empty string lacks an \<open>@\<close>, and the guard
  \<open>formData.email &&\<close> lets it through: the untouched form has no email and no email
  error. And the class \<open>[^\s@]\<close> keeps out every white-space character, not the space
  alone: an email with a tab in its local part has the three parts without a space or a
  second \<open>@\<close>, and is flagged.
\<close>

theorem email_empty_or_tab:
  "0x40 \<notin> set (PatientFormData.email initialFormData) \<and>
   \<not> flagged (newErrors initialFormData) ''email'' \<and>
   email_shape_spaces tab_email \<and>
   flagged (newErrors (draft_valid\<lparr>email := tab_email\<rparr>)) ''email''"
  using tab_email_shape_spaces tab_email_flagged
  by (simp add: flagged_email initialFormData_def)

text \<open>
  C2, amended. The filter returns exactly the records whose name, lower-cased by
  \<open>toLowerCase\<close>, contains the keyword, lower-cased by \<open>toLowerCase\<close>, or whose identity
  number contains the keyword; this holds whatever function \<open>toLowerCase\<close> is. When the
  keyword and the names have only code units below U+0100, these are the records whose
  name contains the keyword up to the case of the letters. The empty keyword returns the
  whole list. Of two records named Budi and Sari, Sari's identity number without \<open>bu\<close> in
  it, the keyword \<open>bu\<close> keeps Budi only. The source list is an argument of
  \<open>filteredPatients\<close>, which returns a new list, as \<open>Array.prototype.filter\<close> does:
  nothing is written to the list of the state.
\<close>

theorem filter_by_name_or_nik:
  "filteredPatients lower ps k =
     filter (\<lambda>p. sublist (lower k) (lower (Patient.nama p)) \<or> sublist k (Patient.nik p)) ps \<and>
   filteredPatients lower ps [] = ps \<and>
   (latin1 k \<and> (\<forall>p \<in> set ps. latin1 (Patient.nama p)) \<longrightarrow>
      filteredPatients toLowerCase ps k =
        filter (\<lambda>p. ci_substring k (Patient.nama p) \<or> sublist k (Patient.nik p)) ps) \<and>
   (Patient.nama b = utf16 ''Budi'' \<and> Patient.nama s = utf16 ''Sari'' \<and>
    \<not> sublist (utf16 ''bu'') (Patient.nik s) \<longrightarrow>
      filteredPatients toLowerCase [b, s] (utf16 ''bu'') = [b])"
proof (intro conjI impI)
  show "filteredPatients lower ps k =
     filter (\<lambda>p. sublist (lower k) (lower (Patient.nama p)) \<or> sublist k (Patient.nik p)) ps"
    by (rule filteredPatients_filter)
  show "filteredPatients lower ps [] = ps" by (rule filteredPatients_empty_keyword)
next
  assume "latin1 k \<and> (\<forall>p \<in> set ps. latin1 (Patient.nama p))"
  then show "filteredPatients toLowerCase ps k =
        filter (\<lambda>p. ci_substring k (Patient.nama p) \<or> sublist k (Patient.nik p)) ps"
    using filteredPatients_latin1 by simp
next
  assume a: "Patient.nama b = utf16 ''Budi'' \<and> Patient.nama s = utf16 ''Sari'' \<and>
    \<not> sublist (utf16 ''bu'') (Patient.nik s)"
  then have "\<not> str_includes (Patient.nik s) (utf16 ''bu'')" by (simp add: str_includes_sublist)
  then show "filteredPatients toLowerCase [b, s] (utf16 ''bu'') = [b]"
    using a not_includes_bu_Sari includes_bu_Budi by (simp add: filteredPatients_def)
qed

text \<open>
  The theorem at the two records of the scenario; a keyword of digits finds a record by
  its identity number, a keyword in capitals finds a record by its name.
\<close>

theorem filter_by_name_or_nik_witness:
  "Patient.nama budi = utf16 ''Budi'' \<and> Patient.nama sari = utf16 ''Sari'' \<and>
   \<not> sublist (utf16 ''bu'') (Patient.nik sari) \<and>
   filteredPatients toLowerCase [budi, sari] (utf16 ''bu'') = [budi] \<and>
   filteredPatients toLowerCase [budi, sari] [] = [budi, sari] \<and>
   filteredPatients toLowerCase [budi, sari] (utf16 ''0002'') = [sari] \<and>
   latin1 (utf16 ''SAR'') \<and> latin1 (Patient.nama budi) \<and> latin1 (Patient.nama sari) \<and>
   filter (\<lambda>p. ci_substring (utf16 ''SAR'') (Patient.nama p) \<or>
      sublist (utf16 ''SAR'') (Patient.nik p)) [budi, sari] = [sari]"
proof -
  have "\<not> str_includes (Patient.nik sari) (utf16 ''bu'')" by code_simp
  then have h: "Patient.nama budi = utf16 ''Budi'' \<and> Patient.nama sari = utf16 ''Sari'' \<and>
     \<not> sublist (utf16 ''bu'') (Patient.nik sari)"
    by (simp add: str_includes_sublist budi_def sari_def)
  note inst = filter_by_name_or_nik[of toLowerCase "[budi, sari]" "utf16 ''SAR''" budi sari]
  have 1: "filteredPatients toLowerCase [budi, sari] (utf16 ''bu'') = [budi]"
    using inst[THEN conjunct2, THEN conjunct2, THEN conjunct2, rule_format, OF h] .
  have 2: "filteredPatients toLowerCase [budi, sari] [] = [budi, sari]"
    using inst[THEN conjunct2, THEN conjunct1] .
  have 3: "filteredPatients toLowerCase [budi, sari] (utf16 ''0002'') = [sari]" by code_simp
  have l: "latin1 (utf16 ''SAR'')" "latin1 (Patient.nama budi)" "latin1 (Patient.nama sari)"
    by (simp_all add: latin1_def utf16_def budi_def sari_def)
  then have l': "latin1 (utf16 ''SAR'') \<and> (\<forall>p \<in> set [budi, sari]. latin1 (Patient.nama p))"
    by simp
  have 4: "filteredPatients toLowerCase [budi, sari] (utf16 ''SAR'') = [sari]" by code_simp
  have 5: "filter (\<lambda>p. ci_substring (utf16 ''SAR'') (Patient.nama p) \<or>
      sublist (utf16 ''SAR'') (Patient.nik p)) [budi, sari] = [sari]"
    using inst[THEN conjunct2, THEN conjunct2, THEN conjunct1, rule_format, OF l'] 4 by simp
  from h 1 2 3 l 5 show ?thesis by simp
qed

text \<open>
  The claim as written fails twice. The name of the record \<open>odos\<close> ends in a capital
  sigma, which \<open>toLowerCase\<close> turns into a final sigma, while the keyword made of a capital
  sigma alone becomes a plain small sigma: the name contains the keyword, even letter for
  letter, and the filter drops the record. And a record named Sari whose identity number
  holds \<open>bu\<close> stays in the list under the keyword \<open>bu\<close>.
\<close>

theorem greek_name_dropped:
  "sublist [0x3A3] (Patient.nama odos) \<and> ci_substring [0x3A3] (Patient.nama odos) \<and>
   filteredPatients toLowerCase [odos] [0x3A3] = [] \<and>
   Patient.nama budi = utf16 ''Budi'' \<and> Patient.nama sari_bu = utf16 ''Sari'' \<and>
   filteredPatients toLowerCase [budi, sari_bu] (utf16 ''bu'') = [budi, sari_bu]"
proof -
  have s: "sublist [0x3A3] (Patient.nama odos)" by code_simp
  have "list_all2 same_letter [0x3A3] [0x3A3]" by (simp add: same_letter_def)
  with s have c: "ci_substring [0x3A3] (Patient.nama odos)"
    unfolding ci_substring_def by (intro exI conjI)
  have f: "filteredPatients toLowerCase [odos] [0x3A3] = []" by code_simp
  have g: "filteredPatients toLowerCase [budi, sari_bu] (utf16 ''bu'') = [budi, sari_bu]"
    by code_simp
  show ?thesis using s c f g by (simp add: budi_def sari_bu_def)
qed

text \<open>
  C9. Filtering is idempotent: filtering the filtered list again by the same keyword
  yields the same list, whatever function \<open>toLowerCase\<close> is.
\<close>

theorem filter_idempotent:
  "filteredPatients lower (filteredPatients lower ps k) k = filteredPatients lower ps k"
  by (simp add: filteredPatients_def)

text \<open>
  The theorem at a list that holds one record twice.
\<close>

theorem filter_idempotent_witness:
  "filteredPatients toLowerCase (filteredPatients toLowerCase [budi, sari, budi] (utf16 ''bu''))
     (utf16 ''bu'') = [budi, budi]"
proof -
  have f: "filteredPatients toLowerCase [budi, sari, budi] (utf16 ''bu'') = [budi, budi]"
    by code_simp
  show ?thesis
    using filter_idempotent[of toLowerCase "[budi, sari, budi]" "utf16 ''bu''"] unfolding f .
qed

text \<open>
  C10. The filtered list is a subsequence of the source list: the records that remain
  keep their order, every record that matches keeps the number of its occurrences, the
  others have none, and no record is added; whatever function \<open>toLowerCase\<close> is.
\<close>

theorem filter_subsequence:
  "subseq (filteredPatients lower ps k) ps \<and>
   set (filteredPatients lower ps k) \<subseteq> set ps \<and>
   (\<forall>p. count_list (filteredPatients lower ps k) p =
      (if sublist (lower k) (lower (Patient.nama p)) \<or> sublist k (Patient.nik p)
       then count_list ps p else 0))"
proof (intro conjI allI)
  show "subseq (filteredPatients lower ps k) ps" by (simp add: filteredPatients_def)
  show "set (filteredPatients lower ps k) \<subseteq> set ps" by (auto simp: filteredPatients_def)
  fix p
  show "count_list (filteredPatients lower ps k) p =
      (if sublist (lower k) (lower (Patient.nama p)) \<or> sublist k (Patient.nik p)
       then count_list ps p else 0)"
    unfolding filteredPatients_filter by (rule count_list_filter)
qed

text \<open>
  The theorem at a list with duplicates, with a keyword in capitals.
\<close>

theorem filter_subsequence_witness:
  "filteredPatients toLowerCase [budi, sari, budi, sari, budi] (utf16 ''BUD'') = [budi, budi, budi] \<and>
   subseq [budi, budi, budi] [budi, sari, budi, sari, budi] \<and>
   count_list (filteredPatients toLowerCase [budi, sari, budi, sari, budi] (utf16 ''BUD'')) budi = 3 \<and>
   count_list (filteredPatients toLowerCase [budi, sari, budi, sari, budi] (utf16 ''BUD'')) sari = 0"
proof -
  let ?ps = "[budi, sari, budi, sari, budi]"
  have f: "filteredPatients toLowerCase ?ps (utf16 ''BUD'') = [budi, budi, budi]" by code_simp
  have s: "subseq [budi, budi, budi] ?ps"
    using filter_subsequence[of toLowerCase ?ps "utf16 ''BUD''", THEN conjunct1] unfolding f .
  have neq: "sari \<noteq> budi" by (simp add: budi_def sari_def)
  have c1: "count_list (filteredPatients toLowerCase ?ps (utf16 ''BUD'')) budi = 3"
    unfolding f by simp
  have c2: "count_list (filteredPatients toLowerCase ?ps (utf16 ''BUD'')) sari = 0"
    unfolding f using neq by simp
  from f s c1 c2 show ?thesis by simp
qed

text \<open>
  C5. The page at a rejection whose response has the body \<open>null\<close>: the form is open on a
  complete draft, the creation is sent and rejected. Reading \<open>apiError.errors\<close> throws
  inside the \<open>catch\<close> block, so no message is set and no banner is shown, where the
  specification promises a generic message; the exception leaves the handler. The draft
  and the form stay as they were. For every other rejection the message is the one the
  specification describes (\<open>submitFailure_errors\<close>, \<open>submitFailure_message\<close>,
  \<open>submitFailure_generic\<close>, \<open>submitFailure_no_response\<close>).
\<close>

theorem submit_rejected_null_body:
  "newErrors (formData form_open) = [] \<and>
   requests (handleSubmit (Rejected (AxiosResponse JNull)) (Resolved []) form_open) =
     [CreatePatient draft_valid] \<and>
   errorMessage (handleSubmit (Rejected (AxiosResponse JNull)) (Resolved []) form_open) = JStr [] \<and>
   errorBanner (handleSubmit (Rejected (AxiosResponse JNull)) (Resolved []) form_open) = None \<and>
   uncaught (handleSubmit (Rejected (AxiosResponse JNull)) (Resolved []) form_open) = [TypeError] \<and>
   formData (handleSubmit (Rejected (AxiosResponse JNull)) (Resolved []) form_open) = draft_valid \<and>
   showForm (handleSubmit (Rejected (AxiosResponse JNull)) (Resolved []) form_open)"
proof -
  have v: "newErrors (formData form_open) = []" by code_simp
  have st: "requests form_open = []" "submitRequest form_open = CreatePatient draft_valid"
    "formData form_open = draft_valid" "showForm form_open" "uncaught form_open = []"
    by (simp_all add: form_open_def initialState_def submitRequest_def)
  show ?thesis
    using v st
    by (simp add: handleSubmit_rejected[OF v] submitFailure_null errorBanner_def)
qed

text \<open>
  C6. When the validator reports an error for the submitted draft, \<open>handleSubmit\<close> sends
  no request, records the per-field errors, and leaves the draft, the identifier being
  edited, the form's visibility and the list as they were.
\<close>

theorem invalid_submit_aborts:
  "newErrors (formData s) \<noteq> [] \<Longrightarrow>
   (let s' = handleSubmit saved fetched s in
      requests s' = requests s \<and> state.errors s' = newErrors (formData s) \<and>
      formData s' = formData s \<and> editingId s' = editingId s \<and> showForm s' = showForm s \<and>
      patients s' = patients s)"
  by (simp add: handleSubmit_invalid Let_def)

text \<open>
  The theorem at the open form holding the draft of Ana, whose identity number is 12AB.
\<close>

theorem invalid_submit_aborts_witness:
  "newErrors (formData (form_open\<lparr>formData := draft_ana\<rparr>)) \<noteq> [] \<and>
   requests (handleSubmit (Resolved budi) (Resolved []) (form_open\<lparr>formData := draft_ana\<rparr>)) = [] \<and>
   state.errors (handleSubmit (Resolved budi) (Resolved []) (form_open\<lparr>formData := draft_ana\<rparr>)) =
     [(''nik'', utf16 ''NIK hanya boleh berisi angka'')] \<and>
   formData (handleSubmit (Resolved budi) (Resolved []) (form_open\<lparr>formData := draft_ana\<rparr>)) = draft_ana \<and>
   showForm (handleSubmit (Resolved budi) (Resolved []) (form_open\<lparr>formData := draft_ana\<rparr>)) \<and>
   patients (handleSubmit (Resolved budi) (Resolved []) (form_open\<lparr>formData := draft_ana\<rparr>)) = [budi, sari]"
proof -
  let ?s = "form_open\<lparr>formData := draft_ana\<rparr>"
  have n: "newErrors draft_ana = [(''nik'', utf16 ''NIK hanya boleh berisi angka'')]" by code_simp
  then have h: "newErrors (formData ?s) \<noteq> []" by simp
  have st: "requests ?s = []" "formData ?s = draft_ana" "showForm ?s" "patients ?s = [budi, sari]"
    by (simp_all add: form_open_def initialState_def)
  show ?thesis
    using invalid_submit_aborts[OF h, of "Resolved budi" "Resolved []", unfolded Let_def] h n st
    by simp
qed

text \<open>
  C7, amended. A create, update or delete call that succeeds is followed by a fetch of
  the whole list, after which the list is the fetched one when the fetch succeeds and the
  previous one when it fails. A call that fails is followed by no fetch and leaves the
  list as it was. Each handler runs to its end here; calls in flight at the same time are
  outside the model.
\<close>

theorem success_refetches:
  "(newErrors (formData s) = [] \<longrightarrow>
      requests (handleSubmit (Resolved p) fetched s) =
        requests s @ [submitRequest s, GetAllPatients] \<and>
      patients (handleSubmit (Resolved p) fetched s) =
        (case fetched of Resolved data \<Rightarrow> data | Rejected e \<Rightarrow> patients s)) \<and>
   requests (handleDelete True (Resolved u) fetched i n s) =
     requests s @ [DeletePatient i, GetAllPatients] \<and>
   patients (handleDelete True (Resolved u) fetched i n s) =
     (case fetched of Resolved data \<Rightarrow> data | Rejected e \<Rightarrow> patients s) \<and>
   (newErrors (formData s) = [] \<longrightarrow>
      requests (handleSubmit (Rejected error) fetched s) = requests s @ [submitRequest s] \<and>
      patients (handleSubmit (Rejected error) fetched s) = patients s) \<and>
   requests (handleDelete True (Rejected error) fetched i n s) = requests s @ [DeletePatient i] \<and>
   patients (handleDelete True (Rejected error) fetched i n s) = patients s"
  by (simp add: handleSubmit_resolved handleSubmit_rejected_frame handleDelete_resolved
      handleDelete_rejected requests_fetchPatients patients_fetchPatients split: outcome.splits)

text \<open>
  The theorem at the open form with a complete draft: a creation that succeeds, one that
  fails, and a deletion that succeeds.
\<close>

theorem success_refetches_witness:
  "newErrors (formData form_open) = [] \<and>
   requests (handleSubmit (Resolved budi) (Resolved [budi, sari, budi]) form_open) =
     [CreatePatient draft_valid, GetAllPatients] \<and>
   patients (handleSubmit (Resolved budi) (Resolved [budi, sari, budi]) form_open) =
     [budi, sari, budi] \<and>
   requests (handleSubmit (Rejected AxiosNoResponse) (Resolved [budi, sari, budi]) form_open) =
     [CreatePatient draft_valid] \<and>
   patients (handleSubmit (Rejected AxiosNoResponse) (Resolved [budi, sari, budi]) form_open) =
     [budi, sari] \<and>
   requests (handleDelete True (Resolved ()) (Resolved [budi, sari, budi]) 1 (utf16 ''Budi'') form_open) =
     [DeletePatient 1, GetAllPatients] \<and>
   patients (handleDelete True (Resolved ()) (Resolved [budi, sari, budi]) 1 (utf16 ''Budi'') form_open) =
     [budi, sari, budi]"
proof -
  have v: "newErrors (formData form_open) = []" by code_simp
  have st: "requests form_open = []" "submitRequest form_open = CreatePatient draft_valid"
    "patients form_open = [budi, sari]"
    by (simp_all add: form_open_def initialState_def submitRequest_def)
  note inst = success_refetches[of form_open budi "Resolved [budi, sari, budi]" "()" 1
      "utf16 ''Budi''" AxiosNoResponse]
  from inst v have a: "requests (handleSubmit (Resolved budi) (Resolved [budi, sari, budi]) form_open) =
        requests form_open @ [submitRequest form_open, GetAllPatients] \<and>
      patients (handleSubmit (Resolved budi) (Resolved [budi, sari, budi]) form_open) =
        (case Resolved [budi, sari, budi] of Resolved data \<Rightarrow> data | Rejected e \<Rightarrow> patients form_open)"
    by simp
  from inst v have b: "requests (handleSubmit (Rejected AxiosNoResponse) (Resolved [budi, sari, budi]) form_open) =
        requests form_open @ [submitRequest form_open] \<and>
      patients (handleSubmit (Rejected AxiosNoResponse) (Resolved [budi, sari, budi]) form_open) =
        patients form_open"
    by simp
  from inst have c: "requests (handleDelete True (Resolved ()) (Resolved [budi, sari, budi]) 1 (utf16 ''Budi'') form_open) =
        requests form_open @ [DeletePatient 1, GetAllPatients] \<and>
      patients (handleDelete True (Resolved ()) (Resolved [budi, sari, budi]) 1 (utf16 ''Budi'') form_open) =
        (case Resolved [budi, sari, budi] of Resolved data \<Rightarrow> data | Rejected e \<Rightarrow> patients form_open)"
    by simp
  from a b c v st show ?thesis by simp
qed

text \<open>
  The claim as written also covers a call that fails: a deletion that the service rejects
  is the only request sent, and no fetch follows it.
\<close>

theorem failed_delete_no_refetch:
  "requests (handleDelete True (Rejected AxiosNoResponse) (Resolved []) 1 (utf16 ''Budi'')
      (initialState\<lparr>patients := [budi]\<rparr>)) = [DeletePatient 1] \<and>
   GetAllPatients \<notin> set (requests (handleDelete True (Rejected AxiosNoResponse) (Resolved []) 1
      (utf16 ''Budi'') (initialState\<lparr>patients := [budi]\<rparr>)))"
  by (simp add: handleDelete_rejected initialState_def)

text \<open>
  C8. When the fetch of the list fails, the page sets one error message and leaves the
  list as it was; the list is empty at first, so a first fetch that fails leaves it
  empty.
\<close>

theorem fetch_failure_keeps_list:
  "(let s' = fetchPatients (Rejected error) s in
      patients s' = patients s \<and>
      errorMessage s' =
        JStr (utf16 ''Gagal mengambil data pasien. Pastikan backend sudah berjalan.'') \<and>
      successMessage s' = successMessage s \<and> loading s' = False) \<and>
   patients initialState = [] \<and>
   patients (fetchPatients (Rejected error) initialState) = []"
  by (simp add: fetchPatients_rejected Let_def initialState_def)

text \<open>
  The theorem at a page that holds two records, and at the first fetch of an empty page.
\<close>

theorem fetch_failure_keeps_list_witness:
  "patients (fetchPatients (Rejected AxiosNoResponse) form_open) = [budi, sari] \<and>
   errorMessage (fetchPatients (Rejected AxiosNoResponse) form_open) =
     JStr (utf16 ''Gagal mengambil data pasien. Pastikan backend sudah berjalan.'') \<and>
   patients (fetchPatients (Rejected NotAxios) initialState) = []"
proof -
  have st: "patients form_open = [budi, sari]" by (simp add: form_open_def initialState_def)
  show ?thesis
    using fetch_failure_keeps_list[of AxiosNoResponse form_open, unfolded Let_def]
      fetch_failure_keeps_list[of NotAxios initialState, unfolded Let_def] st
    by simp
qed

end
